theory Spec2Isabelle
  imports Main "HOL-Library.Word"
begin

unbundle bit_operations_syntax

section \<open>Python values read from JSON\<close>

text \<open>
  \<^verbatim>\<open>json.load\<close> yields \<^verbatim>\<open>None\<close>, \<^verbatim>\<open>bool\<close>, \<^verbatim>\<open>int\<close>, \<^verbatim>\<open>float\<close>, \<^verbatim>\<open>str\<close>,
  \<^verbatim>\<open>list\<close> and \<^verbatim>\<open>dict\<close> (string keys, insertion order kept). A float is kept as
  its 64 bits; the code never computes with one. A dict is an association list in
  insertion order; a dict built by \<^verbatim>\<open>json.load\<close> has distinct keys.
\<close>

datatype json =
    JNull
  | JBool bool
  | JInt int
  | JFloat "64 word"
  | JStr string
  | JArr "json list"
  | JObj "(string \<times> json) list"

type_synonym pydict = "(string \<times> json) list"

text \<open>\<^verbatim>\<open>d.get(k, default)\<close>; \<^verbatim>\<open>d.get(k)\<close> is \<open>dict_get d k JNull\<close>.\<close>

definition dict_get :: "pydict \<Rightarrow> string \<Rightarrow> json \<Rightarrow> json" where
  "dict_get d k dflt = (case map_of d k of None \<Rightarrow> dflt | Some v \<Rightarrow> v)"

text \<open>Python truthiness of a JSON value (\<^verbatim>\<open>if block.get("summaries")\<close>).\<close>

fun truthy :: "json \<Rightarrow> bool" where
  "truthy JNull = False"
| "truthy (JBool b) = b"
| "truthy (JInt i) = (i \<noteq> 0)"
| "truthy (JFloat w) = (w \<noteq> 0 \<and> w \<noteq> 0x8000000000000000)"
| "truthy (JStr s) = (s \<noteq> [])"
| "truthy (JArr xs) = (xs \<noteq> [])"
| "truthy (JObj kvs) = (kvs \<noteq> [])"

text \<open>
  The exceptions the code can end in. \<^verbatim>\<open>FileNotFoundError\<close>, \<^verbatim>\<open>JSONDecodeError\<close>,
  \<^verbatim>\<open>UnicodeDecodeError\<close> and \<^verbatim>\<open>OSError\<close> carry their message (the last two are what
  opening and reading a file can raise besides); \<^verbatim>\<open>AttributeError\<close> is \<^verbatim>\<open>.get\<close> on a
  value that is not a dict, \<^verbatim>\<open>TypeError\<close> is a \<^verbatim>\<open>for\<close> loop over a value that is not
  iterable, \<^verbatim>\<open>IndexError\<close> (raised in the schema inspector only) is \<^verbatim>\<open>xs[0]\<close> on an
  empty list.
\<close>

datatype error =
    FileNotFoundError string
  | JSONDecodeError string
  | UnicodeDecodeError string
  | OSError string
  | AttributeError
  | TypeError
  | IndexError

text \<open>
  What a \<^verbatim>\<open>for\<close> loop iterates over: the items of a list, the characters of a
  string (each a string of length one), the keys of a dict.
\<close>

fun py_iter :: "json \<Rightarrow> error + json list" where
  "py_iter (JArr xs) = Inr xs"
| "py_iter (JStr s) = Inr (map (\<lambda>c. JStr [c]) s)"
| "py_iter (JObj kvs) = Inr (map (\<lambda>kv. JStr (fst kv)) kvs)"
| "py_iter _ = Inl TypeError"

section \<open>The normalizer chain (\<^verbatim>\<open>ccutils/parsers/claude_ai.py\<close>)\<close>

definition convert_content_block :: "pydict \<Rightarrow> pydict" where
  "convert_content_block block =
    (let block_type = dict_get block ''type'' JNull in
     if block_type = JStr ''text'' then
       [(''type'', JStr ''text''),
        (''text'', dict_get block ''text'' (JStr ''''))]
     else if block_type = JStr ''thinking'' then
       (let result = [(''type'', JStr ''thinking''),
                      (''thinking'', dict_get block ''thinking'' (JStr ''''))]
        in if truthy (dict_get block ''summaries'' JNull)
           then result @ [(''_summaries'', dict_get block ''summaries'' JNull)]
           else result)
     else if block_type = JStr ''tool_use'' then
       [(''type'', JStr ''tool_use''),
        (''id'', dict_get block ''id'' JNull),
        (''name'', dict_get block ''name'' (JStr '''')),
        (''input'', dict_get block ''input'' (JObj []))]
     else if block_type = JStr ''tool_result'' then
       [(''type'', JStr ''tool_result''),
        (''tool_use_id'', dict_get block ''tool_use_id'' JNull),
        (''content'', dict_get block ''content'' (JStr '''')),
        (''is_error'', dict_get block ''is_error'' (JBool False))]
     else
       (''type'', block_type) # filter (\<lambda>kv. fst kv \<noteq> ''type'') block)"

text \<open>
  The canonical logline. The source builds a dict with these five keys and a nested
  dict with the two keys of \<open>message\<close>; every field but \<open>content\<close> holds whatever
  JSON value the export had there.
\<close>

record message =
  role :: json
  content :: "pydict list"

record logline =
  type :: json
  timestamp :: json
  sessionId :: json
  uuid :: json
  message :: message

text \<open>The loop over \<^verbatim>\<open>message.get("content", [])\<close>: elements that are not dicts are skipped.\<close>

fun convert_blocks :: "json list \<Rightarrow> pydict list" where
  "convert_blocks [] = []"
| "convert_blocks (JObj block # rest) = convert_content_block block # convert_blocks rest"
| "convert_blocks (_ # rest) = convert_blocks rest"

definition convert_message_to_logline :: "json \<Rightarrow> json \<Rightarrow> error + logline" where
  "convert_message_to_logline msg session_id =
    (case msg of
       JObj m \<Rightarrow>
         (let sender = dict_get m ''sender'' (JStr '''');
              msg_type = (if sender = JStr ''human'' then JStr ''user'' else sender)
          in case py_iter (dict_get m ''content'' (JArr [])) of
               Inl e \<Rightarrow> Inl e
             | Inr blocks \<Rightarrow>
                 Inr \<lparr> type = msg_type,
                       timestamp = dict_get m ''created_at'' (JStr ''''),
                       sessionId = session_id,
                       uuid = dict_get m ''uuid'' (JStr ''''),
                       message = \<lparr> role = msg_type, content = convert_blocks blocks \<rparr> \<rparr>)
     | _ \<Rightarrow> Inl AttributeError)"

text \<open>The loop of \<^verbatim>\<open>convert_conversation_to_loglines\<close>; the first exception ends it.\<close>

fun convert_messages :: "json list \<Rightarrow> json \<Rightarrow> error + logline list" where
  "convert_messages [] session_id = Inr []"
| "convert_messages (msg # rest) session_id =
    (case convert_message_to_logline msg session_id of
       Inl e \<Rightarrow> Inl e
     | Inr l \<Rightarrow>
         (case convert_messages rest session_id of
            Inl e \<Rightarrow> Inl e
          | Inr ls \<Rightarrow> Inr (l # ls)))"

definition convert_conversation_to_loglines :: "json \<Rightarrow> error + logline list" where
  "convert_conversation_to_loglines conversation =
    (case conversation of
       JObj c \<Rightarrow>
         (let session_id = dict_get c ''uuid'' (JStr '''') in
          case py_iter (dict_get c ''chat_messages'' (JArr [])) of
            Inl e \<Rightarrow> Inl e
          | Inr msgs \<Rightarrow> convert_messages msgs session_id)
     | _ \<Rightarrow> Inl AttributeError)"

section \<open>The export loader\<close>

subsection \<open>Paths\<close>

text \<open>
  \<^verbatim>\<open>pathlib.Path\<close> on a POSIX system: a path is its root (empty, \<^verbatim>\<open>/\<close>, or \<^verbatim>\<open>//\<close>
  for exactly two leading slashes) and its components; empty components and \<^verbatim>\<open>.\<close>
  are dropped, \<^verbatim>\<open>..\<close> is kept. \<open>path_str\<close> is \<^verbatim>\<open>str(path)\<close>, \<open>path_child\<close> is
  \<^verbatim>\<open>path / name\<close> for a file name, and \<open>path_join export_path name\<close> is
  \<^verbatim>\<open>str(Path(export_path) / name)\<close>.
\<close>

text \<open>\<^verbatim>\<open>sep.join(parts)\<close> and \<^verbatim>\<open>s.split(c)\<close>.\<close>

fun join :: "string \<Rightarrow> string list \<Rightarrow> string" where
  "join sep [] = []"
| "join sep [x] = x"
| "join sep (x # y # ys) = x @ sep @ join sep (y # ys)"

fun split_on :: "char \<Rightarrow> string \<Rightarrow> string list" where
  "split_on c [] = [[]]"
| "split_on c (x # xs) =
    (if x = c then [] # split_on c xs
     else (case split_on c xs of
             [] \<Rightarrow> [[x]]
           | w # ws \<Rightarrow> (x # w) # ws))"

type_synonym posix_path = "string \<times> string list"

definition Path :: "string \<Rightarrow> posix_path" where
  "Path s =
    ((if take 2 s = ''//'' \<and> take 3 s \<noteq> ''///'' then ''//''
      else if take 1 s = ''/'' then ''/''
      else []),
     filter (\<lambda>part. part \<noteq> [] \<and> part \<noteq> ''.'') (split_on CHR ''/'' s))"

definition path_str :: "posix_path \<Rightarrow> string" where
  "path_str p =
    (case p of (root, parts) \<Rightarrow>
       if root = [] \<and> parts = [] then ''.'' else root @ join ''/'' parts)"

definition path_child :: "posix_path \<Rightarrow> string \<Rightarrow> posix_path" where
  "path_child p name = (case p of (root, parts) \<Rightarrow> (root, parts @ [name]))"

definition path_join :: "string \<Rightarrow> string \<Rightarrow> string" where
  "path_join export_path name = path_str (path_child (Path export_path) name)"

subsection \<open>Files\<close>

text \<open>
  A file of the export directory is modelled by what
  \<^verbatim>\<open>with open(path, "r", encoding="utf-8") as f: json.load(f)\<close> makes of it: \<^verbatim>\<open>open\<close>
  raises an \<^verbatim>\<open>OSError\<close>, reading raises a \<^verbatim>\<open>UnicodeDecodeError\<close>, the decoder raises a
  \<^verbatim>\<open>JSONDecodeError\<close>, or the file parses to a value. The file system maps the string
  of a path to the file there, if any (\<^verbatim>\<open>path.exists()\<close>).

  A \<^verbatim>\<open>JSONDecodeError\<close> is made of the decoder's cause and the place of the failure; its
  message is \<^verbatim>\<open>'%s: line %d column %d (char %d)' % (msg, lineno, colno, pos)\<close>. The
  causes are the phrases of CPython's decoder (its C scanner, which \<^verbatim>\<open>json\<close> uses
  when it is there): a fixed phrase each, none of which quotes the text.
\<close>

datatype decode_cause =
    ExpectingValue
  | ExpectingPropertyName
  | ExpectingColon
  | ExpectingComma
  | UnterminatedString
  | InvalidControlCharacter
  | InvalidEscape
  | InvalidUnicodeEscape
  | ExtraData
  | TrailingCommaInObject
  | TrailingCommaInArray

fun cause_phrase :: "decode_cause \<Rightarrow> string" where
  "cause_phrase ExpectingValue = ''Expecting value''"
| "cause_phrase ExpectingPropertyName = ''Expecting property name enclosed in double quotes''"
| "cause_phrase ExpectingColon = ''Expecting '' @ [CHR 0x27] @ '':'' @ [CHR 0x27] @ '' delimiter''"
| "cause_phrase ExpectingComma = ''Expecting '' @ [CHR 0x27] @ '','' @ [CHR 0x27] @ '' delimiter''"
| "cause_phrase UnterminatedString = ''Unterminated string starting at''"
| "cause_phrase InvalidControlCharacter = ''Invalid control character at''"
| "cause_phrase InvalidEscape = ''Invalid '' @ [CHR 0x5C] @ ''escape''"
| "cause_phrase InvalidUnicodeEscape = ''Invalid '' @ [CHR 0x5C] @ ''uXXXX escape''"
| "cause_phrase ExtraData = ''Extra data''"
| "cause_phrase TrailingCommaInObject = ''Illegal trailing comma before end of object''"
| "cause_phrase TrailingCommaInArray = ''Illegal trailing comma before end of array''"

record decode_failure =
  cause :: decode_cause
  lineno :: nat
  colno :: nat
  char_pos :: nat

function decimal :: "nat \<Rightarrow> string" where
  "decimal n =
    (if n < 10 then [char_of (48 + n)] else decimal (n div 10) @ [char_of (48 + n mod 10)])"
  by pat_completeness auto
termination
  by (relation "measure id") auto

declare decimal.simps [simp del]

definition decode_message :: "decode_failure \<Rightarrow> string" where
  "decode_message d =
    cause_phrase (cause d) @ '': line '' @ decimal (lineno d) @ '' column '' @
    decimal (colno d) @ '' (char '' @ decimal (char_pos d) @ '')''"

datatype export_file =
    Unreadable string
  | Undecodable string
  | Malformed decode_failure
  | Parsed json

type_synonym filesystem = "string \<rightharpoonup> export_file"

definition json_load :: "export_file \<Rightarrow> error + json" where
  "json_load f =
    (case f of
       Unreadable m \<Rightarrow> Inl (OSError m)
     | Undecodable m \<Rightarrow> Inl (UnicodeDecodeError m)
     | Malformed d \<Rightarrow> Inl (JSONDecodeError (decode_message d))
     | Parsed v \<Rightarrow> Inr v)"

record export_bundle =
  conversations :: json
  projects :: json
  users :: json
  memories :: json

definition load_optional :: "filesystem \<Rightarrow> string \<Rightarrow> string \<Rightarrow> error + json" where
  "load_optional fs export_path filename =
    (case fs (path_join export_path filename) of
       Some f \<Rightarrow> json_load f
     | None \<Rightarrow> Inr (JArr []))"

text \<open>
  The argument is what the caller passes; \<^verbatim>\<open>export_path = Path(export_path)\<close> comes
  first, so the paths looked up and the path in the message are those of \<open>Path\<close>.
\<close>

definition load_export_files :: "filesystem \<Rightarrow> string \<Rightarrow> error + export_bundle" where
  "load_export_files fs export_path =
    (case fs (path_join export_path ''conversations.json'') of
       None \<Rightarrow>
         Inl (FileNotFoundError
               (''conversations.json not found in '' @ path_str (Path export_path) @ ''. '' @
                ''This doesn'' @ [CHR 0x27] @ ''t appear to be a valid Claude.ai export.''))
     | Some f \<Rightarrow>
         (case json_load f of
            Inl e \<Rightarrow> Inl e
          | Inr convs \<Rightarrow>
              (case load_optional fs export_path ''projects.json'' of
                 Inl e \<Rightarrow> Inl e
               | Inr ps \<Rightarrow>
                   (case load_optional fs export_path ''users.json'' of
                      Inl e \<Rightarrow> Inl e
                    | Inr us \<Rightarrow>
                        (case load_optional fs export_path ''memories.json'' of
                           Inl e \<Rightarrow> Inl e
                         | Inr ms \<Rightarrow>
                             Inr \<lparr> conversations = convs, projects = ps,
                                   users = us, memories = ms \<rparr>)))))"

section \<open>The export parser\<close>

record metadata =
  source :: string
  export_path_of :: string
  md_projects :: json
  md_memories :: json
  md_users :: json
  conversation_count :: nat

record parse_result =
  loglines :: "logline list"
  metadata :: metadata

text \<open>The body of \<^verbatim>\<open>if not include_thinking\<close>, for one logline.\<close>

definition drop_thinking :: "logline \<Rightarrow> logline" where
  "drop_thinking l =
    l\<lparr> message := (message l)\<lparr> content :=
          filter (\<lambda>block. dict_get block ''type'' JNull \<noteq> JStr ''thinking'')
                 (content (message l)) \<rparr> \<rparr>"

text \<open>
  The loop over \<^verbatim>\<open>data["conversations"]\<close>. \<open>conversation_ids\<close> is \<^verbatim>\<open>None\<close> or a list
  of strings.
\<close>

fun parse_conversations ::
  "json list \<Rightarrow> string list option \<Rightarrow> bool \<Rightarrow> error + logline list" where
  "parse_conversations [] conversation_ids include_thinking = Inr []"
| "parse_conversations (conversation # rest) conversation_ids include_thinking =
    (case conversation of
       JObj c \<Rightarrow>
         (let conv_id = dict_get c ''uuid'' (JStr '''') in
          if (case conversation_ids of
                None \<Rightarrow> False
              | Some ids \<Rightarrow> conv_id \<notin> set (map JStr ids))
          then parse_conversations rest conversation_ids include_thinking
          else
            (case convert_conversation_to_loglines conversation of
               Inl e \<Rightarrow> Inl e
             | Inr ls \<Rightarrow>
                 (case parse_conversations rest conversation_ids include_thinking of
                    Inl e \<Rightarrow> Inl e
                  | Inr others \<Rightarrow>
                      Inr ((if include_thinking then ls else map drop_thinking ls) @ others))))
     | _ \<Rightarrow> Inl AttributeError)"

definition parse_claude_ai_export ::
  "filesystem \<Rightarrow> string \<Rightarrow> string list option \<Rightarrow> bool \<Rightarrow> error + parse_result" where
  "parse_claude_ai_export fs export_path conversation_ids include_thinking =
    (case load_export_files fs export_path of
       Inl e \<Rightarrow> Inl e
     | Inr data \<Rightarrow>
         (case py_iter (conversations data) of
            Inl e \<Rightarrow> Inl e
          | Inr convs \<Rightarrow>
              (case parse_conversations convs conversation_ids include_thinking of
                 Inl e \<Rightarrow> Inl e
               | Inr all_loglines \<Rightarrow>
                   Inr \<lparr> loglines = all_loglines,
                         metadata = \<lparr> source = ''claude_ai_export'',
                                      export_path_of = path_str (Path export_path),
                                      md_projects = projects data,
                                      md_memories = memories data,
                                      md_users = users data,
                                      conversation_count = length convs \<rparr> \<rparr>)))"

section \<open>What the normalizer claims are stated against\<close>

text \<open>
  \<^verbatim>\<open>len(conversation.get("chat_messages", []))\<close>, the allowlist test of the parser, and
  the conversations of an export directory.
\<close>

definition chat_messages_length :: "json \<Rightarrow> nat" where
  "chat_messages_length conversation =
    (case conversation of
       JObj c \<Rightarrow>
         (case py_iter (dict_get c ''chat_messages'' (JArr [])) of
            Inr msgs \<Rightarrow> length msgs
          | Inl _ \<Rightarrow> 0)
     | _ \<Rightarrow> 0)"

definition included :: "string list option \<Rightarrow> json \<Rightarrow> bool" where
  "included conversation_ids conversation =
    (case conversation_ids of
       None \<Rightarrow> True
     | Some ids \<Rightarrow>
         (case conversation of
            JObj c \<Rightarrow> dict_get c ''uuid'' (JStr '''') \<in> set (map JStr ids)
          | _ \<Rightarrow> False))"

definition conversations_of :: "filesystem \<Rightarrow> string \<Rightarrow> json list" where
  "conversations_of fs export_path =
    (case fs (path_join export_path ''conversations.json'') of
       Some (Parsed cj) \<Rightarrow> (case py_iter cj of Inr cs \<Rightarrow> cs | Inl _ \<Rightarrow> [])
     | _ \<Rightarrow> [])"

text \<open>
  The messages the parser goes through, in its order: for each conversation that passes
  the allowlist, each of its messages, paired with the conversation's \<^verbatim>\<open>uuid\<close>.
  \<open>logline_identity\<close> is what ties a logline to its message: the session, the message
  \<^verbatim>\<open>uuid\<close> and the timestamp. \<open>expected_logline\<close> is the conversion of one message
  under the \<^verbatim>\<open>uuid\<close> of its conversation, its thinking blocks filtered out when
  \<open>include_thinking\<close> is false.
\<close>

definition conversation_uuid :: "json \<Rightarrow> json" where
  "conversation_uuid conversation =
    (case conversation of JObj c \<Rightarrow> dict_get c ''uuid'' (JStr '''') | _ \<Rightarrow> JStr '''')"

definition chat_messages_of :: "json \<Rightarrow> json list" where
  "chat_messages_of conversation =
    (case conversation of
       JObj c \<Rightarrow>
         (case py_iter (dict_get c ''chat_messages'' (JArr [])) of
            Inr msgs \<Rightarrow> msgs
          | Inl _ \<Rightarrow> [])
     | _ \<Rightarrow> [])"

definition message_field :: "json \<Rightarrow> string \<Rightarrow> json" where
  "message_field msg k = (case msg of JObj m \<Rightarrow> dict_get m k (JStr '''') | _ \<Rightarrow> JStr '''')"

definition message_pairs :: "string list option \<Rightarrow> json list \<Rightarrow> (json \<times> json) list" where
  "message_pairs conversation_ids convs =
    concat (map (\<lambda>c. map (\<lambda>msg. (conversation_uuid c, msg)) (chat_messages_of c))
                (filter (included conversation_ids) convs))"

definition logline_identity :: "logline \<Rightarrow> json \<times> json \<times> json" where
  "logline_identity l = (sessionId l, uuid l, timestamp l)"

definition expected_logline :: "bool \<Rightarrow> json \<times> json \<Rightarrow> error + logline" where
  "expected_logline include_thinking sm =
    map_sum id (if include_thinking then id else drop_thinking)
      (convert_message_to_logline (snd sm) (fst sm))"

text \<open>
  A well-formed export: \<^verbatim>\<open>conversations.json\<close> parses to a sequence of conversation
  objects, the \<^verbatim>\<open>chat_messages\<close> of each is a sequence of message objects, the
  \<^verbatim>\<open>content\<close> of each message can be iterated, and no optional file that is present is
  malformed. These are the exports on which no call of the normalizer raises.
\<close>

definition valid_message :: "json \<Rightarrow> bool" where
  "valid_message msg =
    (case msg of
       JObj m \<Rightarrow> \<not> isl (py_iter (dict_get m ''content'' (JArr [])))
     | _ \<Rightarrow> False)"

definition valid_conversation :: "json \<Rightarrow> bool" where
  "valid_conversation conversation =
    (case conversation of
       JObj c \<Rightarrow>
         (case py_iter (dict_get c ''chat_messages'' (JArr [])) of
            Inr msgs \<Rightarrow> list_all valid_message msgs
          | Inl _ \<Rightarrow> False)
     | _ \<Rightarrow> False)"

definition well_formed_json :: "filesystem \<Rightarrow> string \<Rightarrow> string \<Rightarrow> bool" where
  "well_formed_json fs export_path filename =
    (case fs (path_join export_path filename) of
       None \<Rightarrow> True
     | Some (Parsed _) \<Rightarrow> True
     | Some _ \<Rightarrow> False)"

definition valid_export :: "filesystem \<Rightarrow> string \<Rightarrow> bool" where
  "valid_export fs export_path =
    ((case fs (path_join export_path ''conversations.json'') of
        Some (Parsed cj) \<Rightarrow>
          (case py_iter cj of
             Inr cs \<Rightarrow> list_all valid_conversation cs
           | Inl _ \<Rightarrow> False)
      | _ \<Rightarrow> False) \<and>
     well_formed_json fs export_path ''projects.json'' \<and>
     well_formed_json fs export_path ''users.json'' \<and>
     well_formed_json fs export_path ''memories.json'')"



text \<open>What the bundle holds for an optional file that is absent or parsed.\<close>

definition optional_default :: "filesystem \<Rightarrow> string \<Rightarrow> string \<Rightarrow> json" where
  "optional_default fs export_path filename =
    (case fs (path_join export_path filename) of
       Some (Parsed v) \<Rightarrow> v
     | _ \<Rightarrow> JArr [])"

subsection \<open>An export for the concrete instances\<close>

text \<open>
  One conversation of two messages, after the fixtures of
  \<^verbatim>\<open>tests/test_claude_ai_parser.py\<close>: a human message with a text block, and an
  assistant message without \<^verbatim>\<open>uuid\<close> and \<^verbatim>\<open>created_at\<close> that has a thinking block and
  a text block. \<open>example_loglines\<close> is what the parser is expected to return for it.
  \<open>malformed_fs\<close> is a directory whose \<^verbatim>\<open>conversations.json\<close> is an empty file.
\<close>

definition example_text_block :: pydict where
  "example_text_block =
    [(''start_timestamp'', JStr ''2026-01-06T21:03:55.204746Z''), (''flags'', JNull),
     (''type'', JStr ''text''), (''text'', JStr ''Hello''), (''citations'', JArr [])]"

definition example_thinking_block :: pydict where
  "example_thinking_block =
    [(''type'', JStr ''thinking''), (''thinking'', JStr ''Let me see''),
     (''summaries'', JArr []), (''cut_off'', JBool False)]"

definition example_human :: pydict where
  "example_human =
    [(''uuid'', JStr ''m1''), (''content'', JArr [JObj example_text_block]),
     (''sender'', JStr ''human''), (''created_at'', JStr ''2026-01-06T21:03:55.210564Z'')]"

definition example_assistant :: pydict where
  "example_assistant =
    [(''content'', JArr [JObj example_thinking_block, JObj example_text_block]),
     (''sender'', JStr ''assistant'')]"

definition example_conversation :: json where
  "example_conversation =
    JObj [(''uuid'', JStr ''c1''), (''name'', JStr ''Test''),
          (''chat_messages'', JArr [JObj example_human, JObj example_assistant])]"

definition example_fs :: filesystem where
  "example_fs =
    map_of [(''/export/conversations.json'', Parsed (JArr [example_conversation]))]"

text \<open>
  An export of three conversations for the allowlist: \<^verbatim>\<open>c1\<close> with the two messages
  above, \<^verbatim>\<open>c2\<close> with the human message, \<^verbatim>\<open>c3\<close> with the assistant message.
\<close>

definition three_conversations :: "json list" where
  "three_conversations =
    [example_conversation,
     JObj [(''uuid'', JStr ''c2''), (''chat_messages'', JArr [JObj example_human])],
     JObj [(''uuid'', JStr ''c3''), (''chat_messages'', JArr [JObj example_assistant])]]"

definition three_fs :: filesystem where
  "three_fs = map_of [(''/export/conversations.json'', Parsed (JArr three_conversations))]"


definition example_loglines :: "bool \<Rightarrow> logline list" where
  "example_loglines include_thinking =
    [\<lparr> type = JStr ''user'', timestamp = JStr ''2026-01-06T21:03:55.210564Z'',
        sessionId = JStr ''c1'', uuid = JStr ''m1'',
        message = \<lparr> role = JStr ''user'',
                    content = [[(''type'', JStr ''text''), (''text'', JStr ''Hello'')]] \<rparr> \<rparr>,
     \<lparr> type = JStr ''assistant'', timestamp = JStr '''',
        sessionId = JStr ''c1'', uuid = JStr '''',
        message = \<lparr> role = JStr ''assistant'',
                    content =
                      (if include_thinking
                       then [[(''type'', JStr ''thinking''), (''thinking'', JStr ''Let me see'')]]
                       else []) @
                      [[(''type'', JStr ''text''), (''text'', JStr ''Hello'')]] \<rparr> \<rparr>]"

definition example_result :: "bool \<Rightarrow> parse_result" where
  "example_result include_thinking =
    \<lparr> loglines = example_loglines include_thinking,
      metadata = \<lparr> source = ''claude_ai_export'', export_path_of = ''/export'',
                   md_projects = JArr [], md_memories = JArr [], md_users = JArr [],
                   conversation_count = 1 \<rparr> \<rparr>"

definition string_content_message :: pydict where
  "string_content_message =
    [(''uuid'', JStr ''m9''), (''sender'', JStr ''human''), (''content'', JStr ''Hello there'')]"

section \<open>The dimension key generator\<close>

text \<open>
  Modelled from the spec: \<^verbatim>\<open>generate_dimension_key\<close> of
  \<^verbatim>\<open>claude_code_transcripts/star_schema/utils.py\<close> is missing; only its tests
  (\<^verbatim>\<open>TestGenerateDimensionKey\<close>) are at hand. The spec (4.6): each \<^verbatim>\<open>None\<close> component
  is replaced by a fixed sentinel string, the components are joined with a fixed
  delimiter, and the key is the 128-bit digest of the joined string in lowercase hex.
  The tests fix the delimiter (\<^verbatim>\<open>"|"\<close>) and the digest (MD5 of the encoded string,
  \<^verbatim>\<open>hashlib.md5(s.encode()).hexdigest()\<close>). The sentinel is named by neither and is a
  parameter. A natural key is the byte string of its UTF-8 encoding.
\<close>

type_synonym byte = "8 word"

subsection \<open>MD5 (RFC 1321)\<close>

definition md5_shifts :: "nat list" where
  "md5_shifts =
    [7, 12, 17, 22, 7, 12, 17, 22, 7, 12, 17, 22, 7, 12, 17, 22,
     5, 9, 14, 20, 5, 9, 14, 20, 5, 9, 14, 20, 5, 9, 14, 20,
     4, 11, 16, 23, 4, 11, 16, 23, 4, 11, 16, 23, 4, 11, 16, 23,
     6, 10, 15, 21, 6, 10, 15, 21, 6, 10, 15, 21, 6, 10, 15, 21]"

definition md5_K :: "32 word list" where
  "md5_K =
    [0xd76aa478, 0xe8c7b756, 0x242070db, 0xc1bdceee, 0xf57c0faf, 0x4787c62a, 0xa8304613,
     0xfd469501, 0x698098d8, 0x8b44f7af, 0xffff5bb1, 0x895cd7be, 0x6b901122, 0xfd987193,
     0xa679438e, 0x49b40821, 0xf61e2562, 0xc040b340, 0x265e5a51, 0xe9b6c7aa, 0xd62f105d,
     0x02441453, 0xd8a1e681, 0xe7d3fbc8, 0x21e1cde6, 0xc33707d6, 0xf4d50d87, 0x455a14ed,
     0xa9e3e905, 0xfcefa3f8, 0x676f02d9, 0x8d2a4c8a, 0xfffa3942, 0x8771f681, 0x6d9d6122,
     0xfde5380c, 0xa4beea44, 0x4bdecfa9, 0xf6bb4b60, 0xbebfbc70, 0x289b7ec6, 0xeaa127fa,
     0xd4ef3085, 0x04881d05, 0xd9d4d039, 0xe6db99e5, 0x1fa27cf8, 0xc4ac5665, 0xf4292244,
     0x432aff97, 0xab9423a7, 0xfc93a039, 0x655b59c3, 0x8f0ccc92, 0xffeff47d, 0x85845dd1,
     0x6fa87e4f, 0xfe2ce6e0, 0xa3014314, 0x4e0811a1, 0xf7537e82, 0xbd3af235, 0x2ad7d2bb,
     0xeb86d391]"

text \<open>Four bytes, least significant first, as a 32-bit word, and back.\<close>

definition le_word32 :: "byte list \<Rightarrow> 32 word" where
  "le_word32 bs = foldr (\<lambda>b w. push_bit 8 w OR ucast b) bs 0"

definition word32_le_bytes :: "32 word \<Rightarrow> byte list" where
  "word32_le_bytes w = map (\<lambda>i. ucast (drop_bit (8 * i) w)) [0, 1, 2, 3]"

text \<open>
  Padding: the byte \<open>0x80\<close>, zero bytes up to 56 modulo 64, then the length of the
  message in bits as 64 bits, least significant byte first.
\<close>

definition md5_pad :: "byte list \<Rightarrow> byte list" where
  "md5_pad msg =
    msg @ [0x80] @ replicate ((119 - length msg mod 64) mod 64) 0 @
    map (\<lambda>i. ucast (drop_bit (8 * i) (of_nat (8 * length msg) :: 64 word))) [0..<8]"

function chunks :: "nat \<Rightarrow> 'a list \<Rightarrow> 'a list list" where
  "chunks n xs = (if n = 0 \<or> xs = [] then [] else take n xs # chunks n (drop n xs))"
  by pat_completeness auto
termination
  by (relation "measure (\<lambda>(n, xs). length xs)") auto

declare chunks.simps [simp del]

type_synonym md5_state = "32 word \<times> 32 word \<times> 32 word \<times> 32 word"

definition md5_init :: md5_state where
  "md5_init = (0x67452301, 0xefcdab89, 0x98badcfe, 0x10325476)"

definition md5_round :: "32 word list \<Rightarrow> nat \<Rightarrow> md5_state \<Rightarrow> md5_state" where
  "md5_round M i st =
    (case st of (A, B, C, D) \<Rightarrow>
      (let (F, g) =
            (if i < 16 then ((B AND C) OR (NOT B AND D), i)
             else if i < 32 then ((D AND B) OR (NOT D AND C), (5 * i + 1) mod 16)
             else if i < 48 then (B XOR C XOR D, (3 * i + 5) mod 16)
             else (C XOR (B OR NOT D), (7 * i) mod 16));
           F' = F + A + md5_K ! i + M ! g
       in (D, B + word_rotl (md5_shifts ! i) F', B, C)))"

definition md5_block :: "byte list \<Rightarrow> md5_state \<Rightarrow> md5_state" where
  "md5_block block st =
    (let M = map le_word32 (chunks 4 block) in
     case (st, fold (md5_round M) [0..<64] st) of
       ((a0, b0, c0, d0), (A, B, C, D)) \<Rightarrow> (a0 + A, b0 + B, c0 + C, d0 + D))"

definition md5 :: "byte list \<Rightarrow> byte list" where
  "md5 msg =
    (case fold md5_block (chunks 64 (md5_pad msg)) md5_init of
       (a, b, c, d) \<Rightarrow> concat (map word32_le_bytes [a, b, c, d]))"

subsection \<open>Hex rendering and the key\<close>

definition hexdigits :: string where
  "hexdigits = ''0123456789abcdef''"

definition hex_byte :: "byte \<Rightarrow> string" where
  "hex_byte b = [hexdigits ! (unat b div 16), hexdigits ! (unat b mod 16)]"

definition hexdigest :: "byte list \<Rightarrow> string" where
  "hexdigest bs = concat (map hex_byte bs)"

definition encode :: "string \<Rightarrow> byte list" where
  "encode s = map of_char s"

text \<open>
  Modelled from the spec: the string that is hashed, each \<^verbatim>\<open>None\<close> replaced by the
  sentinel and the components joined with \<^verbatim>\<open>"|"\<close>.
\<close>

definition key_string :: "string \<Rightarrow> string option list \<Rightarrow> string" where
  "key_string sentinel natural_keys =
    join ''|'' (map (\<lambda>k. case k of None \<Rightarrow> sentinel | Some s \<Rightarrow> s) natural_keys)"

text \<open>
  Modelled from the spec: \<^verbatim>\<open>generate_dimension_key(*natural_keys)\<close>, missing from the
  sources; the MD5 hex digest of the joined components, the first argument being the
  sentinel that stands for \<^verbatim>\<open>None\<close>.
\<close>

definition generate_dimension_key :: "string \<Rightarrow> string option list \<Rightarrow> string" where
  "generate_dimension_key sentinel natural_keys =
    hexdigest (md5 (encode (key_string sentinel natural_keys)))"

text \<open>
  Natural keys for which joining loses nothing: at least one component, no delimiter in
  the sentinel or in a component, and no component equal to the sentinel.
\<close>

definition plain_keys :: "string \<Rightarrow> string option list \<Rightarrow> bool" where
  "plain_keys sentinel natural_keys =
    (natural_keys \<noteq> [] \<and> CHR ''|'' \<notin> set sentinel \<and>
     list_all (\<lambda>k. case k of None \<Rightarrow> True
                    | Some s \<Rightarrow> s \<noteq> sentinel \<and> CHR ''|'' \<notin> set s) natural_keys)"

section \<open>The session summary of the star-schema ETL\<close>

text \<open>
  Modelled from the spec: \<^verbatim>\<open>run_star_schema_etl\<close> of
  \<^verbatim>\<open>claude_code_transcripts/star_schema/etl.py\<close> is missing; only its tests
  (\<^verbatim>\<open>TestRunStarSchemaETL\<close>) are at hand. The model follows the spec (3 and 4.8) for
  what the session summary depends on: the run goes through the loglines of one session
  in order, inserts one \<open>fact_messages\<close> row per logline and one \<open>fact_tool_calls\<close> row
  per \<^verbatim>\<open>tool_use\<close> block, and after the last logline inserts one
  \<open>fact_session_summary\<close> row with the message counts, the tool-call count and the
  duration in whole seconds between the first and the last timestamp, zero when a
  timestamp cannot be parsed. The dimension tables, the content-block facts and the
  other columns are left out. The store is the tables as lists of rows, insertion at
  the end. The spec leaves the timestamp syntax open beyond ISO 8601, so the parser is a
  parameter: it gives the instant in microseconds, or \<open>None\<close> for a string it cannot
  parse.
\<close>

record message_row =
  message_type :: json
  content_block_count :: nat

record tool_call_row =
  tool_name :: json
  tool_use_id :: json

record summary_row =
  total_messages :: nat
  user_messages :: nat
  assistant_messages :: nat
  total_tool_calls :: nat
  session_duration_seconds :: int

record store =
  fact_messages :: "message_row list"
  fact_tool_calls :: "tool_call_row list"
  fact_session_summary :: "summary_row list"

definition logline_type :: "json \<Rightarrow> json" where
  "logline_type l = (case l of JObj d \<Rightarrow> dict_get d ''type'' JNull | _ \<Rightarrow> JNull)"

definition logline_timestamp :: "json \<Rightarrow> string" where
  "logline_timestamp l =
    (case l of
       JObj d \<Rightarrow> (case dict_get d ''timestamp'' JNull of JStr s \<Rightarrow> s | _ \<Rightarrow> [])
     | _ \<Rightarrow> [])"

fun dict_items :: "json list \<Rightarrow> pydict list" where
  "dict_items [] = []"
| "dict_items (JObj b # rest) = b # dict_items rest"
| "dict_items (_ # rest) = dict_items rest"

definition logline_blocks :: "json \<Rightarrow> pydict list" where
  "logline_blocks l =
    (case l of
       JObj d \<Rightarrow>
         (case dict_get d ''message'' JNull of
            JObj m \<Rightarrow> (case dict_get m ''content'' JNull of JArr bs \<Rightarrow> dict_items bs | _ \<Rightarrow> [])
          | _ \<Rightarrow> [])
     | _ \<Rightarrow> [])"

definition tool_use_blocks :: "json \<Rightarrow> pydict list" where
  "tool_use_blocks l =
    filter (\<lambda>b. dict_get b ''type'' JNull = JStr ''tool_use'') (logline_blocks l)"

text \<open>The running totals of one ETL run.\<close>

record etl_counters =
  seen_messages :: nat
  seen_user :: nat
  seen_assistant :: nat
  seen_tool_calls :: nat
  first_timestamp :: "string option"
  last_timestamp :: "string option"

definition initial_counters :: etl_counters where
  "initial_counters =
    \<lparr> seen_messages = 0, seen_user = 0, seen_assistant = 0, seen_tool_calls = 0,
      first_timestamp = None, last_timestamp = None \<rparr>"

text \<open>One logline: its fact rows are inserted and the totals advance.\<close>

definition process_logline :: "json \<Rightarrow> store \<times> etl_counters \<Rightarrow> store \<times> etl_counters" where
  "process_logline l sc =
    (case sc of (st, c) \<Rightarrow>
      (let tools = tool_use_blocks l;
           ts = logline_timestamp l
       in (st\<lparr> fact_messages := fact_messages st @
                  [\<lparr> message_type = logline_type l,
                     content_block_count = length (logline_blocks l) \<rparr>],
               fact_tool_calls := fact_tool_calls st @
                  map (\<lambda>b. \<lparr> tool_name = dict_get b ''name'' JNull,
                              tool_use_id = dict_get b ''id'' JNull \<rparr>) tools \<rparr>,
           c\<lparr> seen_messages := seen_messages c + 1,
              seen_user := seen_user c + (if logline_type l = JStr ''user'' then 1 else 0),
              seen_assistant :=
                seen_assistant c + (if logline_type l = JStr ''assistant'' then 1 else 0),
              seen_tool_calls := seen_tool_calls c + length tools,
              first_timestamp :=
                (case first_timestamp c of None \<Rightarrow> Some ts | Some t \<Rightarrow> Some t),
              last_timestamp := Some ts \<rparr>)))"

text \<open>Whole seconds of a difference in microseconds, rounded towards zero.\<close>

definition whole_seconds :: "int \<Rightarrow> int" where
  "whole_seconds d = sgn d * (\<bar>d\<bar> div 1000000)"

definition session_duration ::
  "(string \<Rightarrow> int option) \<Rightarrow> string option \<Rightarrow> string option \<Rightarrow> int" where
  "session_duration parse_timestamp first_ts last_ts =
    (case (first_ts, last_ts) of
       (Some f, Some l) \<Rightarrow>
         (case (parse_timestamp f, parse_timestamp l) of
            (Some t0, Some t1) \<Rightarrow> whole_seconds (t1 - t0)
          | _ \<Rightarrow> 0)
     | _ \<Rightarrow> 0)"

text \<open>
  Modelled from the spec: \<^verbatim>\<open>run_star_schema_etl\<close>, missing from the sources, as far as
  the fact tables and the session summary go: every logline is processed in order, then
  the one summary row is inserted.
\<close>

definition run_star_schema_etl ::
  "(string \<Rightarrow> int option) \<Rightarrow> store \<Rightarrow> json list \<Rightarrow> store" where
  "run_star_schema_etl parse_timestamp st session =
    (case fold process_logline session (st, initial_counters) of
       (st', c) \<Rightarrow>
         st'\<lparr> fact_session_summary := fact_session_summary st' @
               [\<lparr> total_messages = seen_messages c,
                  user_messages = seen_user c,
                  assistant_messages = seen_assistant c,
                  total_tool_calls = seen_tool_calls c,
                  session_duration_seconds =
                    session_duration parse_timestamp (first_timestamp c) (last_timestamp c) \<rparr>] \<rparr>)"

text \<open>
  What the summary is stated against: the counts over the loglines of the session, and
  the first and last timestamps.
\<close>

definition count_type :: "string \<Rightarrow> json list \<Rightarrow> nat" where
  "count_type t session = length (filter (\<lambda>l. logline_type l = JStr t) session)"

definition count_tool_calls :: "json list \<Rightarrow> nat" where
  "count_tool_calls session = sum_list (map (\<lambda>l. length (tool_use_blocks l)) session)"

definition expected_duration :: "(string \<Rightarrow> int option) \<Rightarrow> json list \<Rightarrow> int" where
  "expected_duration parse_timestamp session =
    (if session = [] then 0
     else case (parse_timestamp (logline_timestamp (hd session)),
                parse_timestamp (logline_timestamp (last session))) of
            (Some t0, Some t1) \<Rightarrow> whole_seconds (t1 - t0)
          | _ \<Rightarrow> 0)"

text \<open>
  A parser for the timestamps of the test fixture, \<^verbatim>\<open>YYYY-MM-DDTHH:MM:SS\<close> with an
  optional fraction of up to six digits and an optional \<^verbatim>\<open>Z\<close>, as an instance of
  the parameter. Days are counted from 1970-01-01 in the proleptic Gregorian calendar.
\<close>

definition digit_value :: "char \<Rightarrow> nat option" where
  "digit_value c =
    (let n = (of_char c :: nat) in if 48 \<le> n \<and> n \<le> 57 then Some (n - 48) else None)"

fun number_of :: "string \<Rightarrow> nat option" where
  "number_of [] = None"
| "number_of cs =
    (if list_all (\<lambda>c. digit_value c \<noteq> None) cs
     then Some (foldl (\<lambda>n c. 10 * n + the (digit_value c)) 0 cs)
     else None)"

definition days_from_civil :: "int \<Rightarrow> int \<Rightarrow> int \<Rightarrow> int" where
  "days_from_civil y m d =
    (let y' = (if m \<le> 2 then y - 1 else y);
         era = y' div 400;
         yoe = y' - era * 400;
         doy = (153 * (if m > 2 then m - 3 else m + 9) + 2) div 5 + d - 1;
         doe = yoe * 365 + yoe div 4 - yoe div 100 + doy
     in era * 146097 + doe - 719468)"

definition fraction_micros :: "string \<Rightarrow> int option" where
  "fraction_micros rest =
    (case rest of
       [] \<Rightarrow> Some 0
     | c # ds \<Rightarrow>
         if c = CHR ''Z'' \<and> ds = [] then Some 0
         else if c = CHR ''.'' then
           (let digits = takeWhile (\<lambda>x. digit_value x \<noteq> None) ds;
                suffix = dropWhile (\<lambda>x. digit_value x \<noteq> None) ds
            in if digits = [] \<or> length digits > 6 \<or> (suffix \<noteq> [] \<and> suffix \<noteq> ''Z'') then None
               else map_option int (number_of (digits @ replicate (6 - length digits) CHR ''0'')))
         else None)"

definition parse_iso8601 :: "string \<Rightarrow> int option" where
  "parse_iso8601 s =
    (if length s < 19 \<or> s ! 4 \<noteq> CHR ''-'' \<or> s ! 7 \<noteq> CHR ''-'' \<or> s ! 10 \<noteq> CHR ''T'' \<or>
        s ! 13 \<noteq> CHR '':'' \<or> s ! 16 \<noteq> CHR '':'' then None
     else
       (case (number_of (take 4 s), number_of (take 2 (drop 5 s)), number_of (take 2 (drop 8 s)),
              number_of (take 2 (drop 11 s)), number_of (take 2 (drop 14 s)),
              number_of (take 2 (drop 17 s)), fraction_micros (drop 19 s)) of
          (Some y, Some mo, Some d, Some h, Some mi, Some sec, Some us) \<Rightarrow>
            if 1 \<le> mo \<and> mo \<le> 12 \<and> 1 \<le> d \<and> d \<le> 31 \<and> h < 24 \<and> mi < 60 \<and> sec < 60
            then Some ((((days_from_civil (int y) (int mo) (int d) * 24 + int h) * 60 + int mi) * 60
                         + int sec) * 1000000 + us)
            else None
        | _ \<Rightarrow> None))"

text \<open>The session of the test fixture \<^verbatim>\<open>sample_session_file\<close>, reduced to what the summary reads.\<close>

definition fixture_logline :: "string \<Rightarrow> string \<Rightarrow> json \<Rightarrow> json" where
  "fixture_logline t ts c =
    JObj [(''type'', JStr t), (''sessionId'', JStr ''session-123''), (''timestamp'', JStr ts),
          (''message'', JObj [(''role'', JStr t), (''content'', c)])]"

definition fixture_session :: "json list" where
  "fixture_session =
    [fixture_logline ''user'' ''2025-01-15T10:00:00.000Z''
       (JStr ''Help me write a hello world program''),
     fixture_logline ''assistant'' ''2025-01-15T10:00:05.000Z''
       (JArr [JObj [(''type'', JStr ''text''), (''text'', JStr ''I will create that for you.'')],
              JObj [(''type'', JStr ''tool_use''), (''id'', JStr ''tool-001''),
                    (''name'', JStr ''Write''), (''input'', JObj [])]]),
     fixture_logline ''user'' ''2025-01-15T10:00:10.000Z''
       (JArr [JObj [(''type'', JStr ''tool_result''), (''tool_use_id'', JStr ''tool-001''),
                    (''content'', JStr ''File written successfully'')]]),
     fixture_logline ''assistant'' ''2025-01-15T10:00:15.000Z''
       (JArr [JObj [(''type'', JStr ''thinking''), (''thinking'', JStr ''Let me verify it.'')],
              JObj [(''type'', JStr ''text''), (''text'', JStr ''Let me verify the file.'')],
              JObj [(''type'', JStr ''tool_use''), (''id'', JStr ''tool-002''),
                    (''name'', JStr ''Read''), (''input'', JObj [])]]),
     fixture_logline ''user'' ''2025-01-15T10:00:20.000Z''
       (JArr [JObj [(''type'', JStr ''tool_result''), (''tool_use_id'', JStr ''tool-002''),
                    (''content'', JStr ''print'')]]),
     fixture_logline ''assistant'' ''2025-01-15T10:00:25.000Z''
       (JArr [JObj [(''type'', JStr ''text''), (''text'', JStr ''Done!'')]])]"

definition empty_store :: store where
  "empty_store = \<lparr> fact_messages = [], fact_tool_calls = [], fact_session_summary = [] \<rparr>"

definition unparsed_session :: "json list" where
  "unparsed_session =
    [fixture_logline ''user'' ''yesterday'' (JStr ''Hello''),
     fixture_logline ''assistant'' ''2025-01-15T10:00:05.000Z'' (JStr ''Hi'')]"

section \<open>The schema inspector (\<^verbatim>\<open>ccutils/parsers/schema_inspector.py\<close>)\<close>

text \<open>
  A schema is a Python dict whose values are strings, integers, \<^verbatim>\<open>None\<close>, tuples,
  lists and dicts again; the dict made from a \<^verbatim>\<open>Counter\<close> of formats can have \<^verbatim>\<open>None\<close>
  among its keys. \<open>PPercent k n\<close> stands for the string \<^verbatim>\<open>f"{k / n:.0%}"\<close>, whose digits
  come from floating-point formatting; it is kept as the two integers it is made from.
  A string is the list of its code points, here within the range of \<open>char\<close>, where
  \<^verbatim>\<open>\d\<close> matches the ten ASCII digits only.
\<close>

datatype pyval =
    PNone
  | PInt int
  | PStr string
  | PPercent nat nat
  | PTuple "pyval list"
  | PList "pyval list"
  | PDict "(pyval \<times> pyval) list"

text \<open>\<^verbatim>\<open>s.get(k)\<close> and \<^verbatim>\<open>s[k] = v\<close> on a schema.\<close>

definition sget :: "pyval \<Rightarrow> string \<Rightarrow> pyval" where
  "sget s k =
    (case s of
       PDict d \<Rightarrow> (case map_of d (PStr k) of Some v \<Rightarrow> v | None \<Rightarrow> PNone)
     | _ \<Rightarrow> PNone)"

fun dict_set :: "(pyval \<times> pyval) list \<Rightarrow> pyval \<Rightarrow> pyval \<Rightarrow> (pyval \<times> pyval) list" where
  "dict_set [] k v = [(k, v)]"
| "dict_set ((k', v') # rest) k v =
    (if k' = k then (k', v) # rest else (k', v') # dict_set rest k v)"

definition sset :: "pyval \<Rightarrow> string \<Rightarrow> pyval \<Rightarrow> pyval" where
  "sset s k v = (case s of PDict d \<Rightarrow> PDict (dict_set d (PStr k) v) | _ \<Rightarrow> s)"

text \<open>\<^verbatim>\<open>Counter(xs)\<close> and \<^verbatim>\<open>dict(Counter(xs))\<close>: keys in the order first seen.\<close>

fun counter_add :: "pyval \<Rightarrow> (pyval \<times> nat) list \<Rightarrow> (pyval \<times> nat) list" where
  "counter_add x [] = [(x, 1)]"
| "counter_add x ((y, n) # rest) =
    (if x = y then (y, n + 1) # rest else (y, n) # counter_add x rest)"

definition counter :: "pyval list \<Rightarrow> (pyval \<times> nat) list" where
  "counter xs = foldl (\<lambda>acc x. counter_add x acc) [] xs"

definition counter_dict :: "pyval list \<Rightarrow> pyval" where
  "counter_dict xs = PDict (map (\<lambda>kn. (fst kn, PInt (int (snd kn)))) (counter xs))"

subsection \<open>The patterns of \<open>classify_string\<close>\<close>

definition is_digit :: "char \<Rightarrow> bool" where
  "is_digit c = (let n = (of_char c :: nat) in 48 \<le> n \<and> n \<le> 57)"

definition is_lower :: "char \<Rightarrow> bool" where
  "is_lower c = (let n = (of_char c :: nat) in 97 \<le> n \<and> n \<le> 122)"

definition is_upper :: "char \<Rightarrow> bool" where
  "is_upper c = (let n = (of_char c :: nat) in 65 \<le> n \<and> n \<le> 90)"

definition is_hex :: "char \<Rightarrow> bool" where
  "is_hex c =
    (let n = (of_char c :: nat)
     in (48 \<le> n \<and> n \<le> 57) \<or> (97 \<le> n \<and> n \<le> 102) \<or> (65 \<le> n \<and> n \<le> 70))"

text \<open>
  A pattern is a list of character classes, one per position. \<open>matches_prefix\<close> is
  \<^verbatim>\<open>re.match\<close> of such a pattern; \<open>at_end\<close> is \<^verbatim>\<open>$\<close>, which also matches before a
  newline that ends the string.
\<close>

fun matches_prefix :: "(char \<Rightarrow> bool) list \<Rightarrow> string \<Rightarrow> string option" where
  "matches_prefix [] s = Some s"
| "matches_prefix (p # ps) [] = None"
| "matches_prefix (p # ps) (c # s) = (if p c then matches_prefix ps s else None)"

definition at_end :: "string \<Rightarrow> bool" where
  "at_end rest = (rest = [] \<or> rest = [CHR 0x0A])"

definition lit :: "char \<Rightarrow> char \<Rightarrow> bool" where
  "lit x c = (c = x)"

definition uuid_pattern :: "(char \<Rightarrow> bool) list" where
  "uuid_pattern =
    replicate 8 is_hex @ [lit CHR ''-''] @ replicate 4 is_hex @ [lit CHR ''-''] @
    replicate 4 is_hex @ [lit CHR ''-''] @ replicate 4 is_hex @ [lit CHR ''-''] @
    replicate 12 is_hex"

definition date_pattern :: "(char \<Rightarrow> bool) list" where
  "date_pattern =
    replicate 4 is_digit @ [lit CHR ''-''] @ replicate 2 is_digit @ [lit CHR ''-''] @
    replicate 2 is_digit"

definition iso8601_pattern :: "(char \<Rightarrow> bool) list" where
  "iso8601_pattern =
    date_pattern @ [lit CHR ''T''] @ replicate 2 is_digit @ [lit CHR '':''] @
    replicate 2 is_digit @ [lit CHR '':''] @ replicate 2 is_digit"

definition strip_final_newline :: "string \<Rightarrow> string" where
  "strip_final_newline s = (if s \<noteq> [] \<and> last s = CHR 0x0A then butlast s else s)"

text \<open>
  \<^verbatim>\<open>^[a-zA-Z0-9._%+-]+@[a-zA-Z0-9.-]+\.[a-zA-Z]{2,}$\<close>: the local part cannot hold
  \<^verbatim>\<open>@\<close> and the last part cannot hold a dot, so the string splits at its first
  \<^verbatim>\<open>@\<close> and, after that, at its last dot.
\<close>

definition is_local_char :: "char \<Rightarrow> bool" where
  "is_local_char c =
    (is_lower c \<or> is_upper c \<or> is_digit c \<or> c \<in> set ''._%+-'')"

definition is_domain_char :: "char \<Rightarrow> bool" where
  "is_domain_char c = (is_lower c \<or> is_upper c \<or> is_digit c \<or> c \<in> set ''.-'')"

definition matches_email :: "string \<Rightarrow> bool" where
  "matches_email s =
    (let body = strip_final_newline s;
         local_part = takeWhile (\<lambda>c. c \<noteq> CHR ''@'') body;
         after = dropWhile (\<lambda>c. c \<noteq> CHR ''@'') body
     in case after of
          [] \<Rightarrow> False
        | _ # host \<Rightarrow>
            (let tld = rev (takeWhile (\<lambda>c. c \<noteq> CHR ''.'') (rev host));
                 domain_part = rev (dropWhile (\<lambda>c. c \<noteq> CHR ''.'') (rev host))
             in local_part \<noteq> [] \<and> list_all is_local_char local_part \<and>
                length domain_part \<ge> 2 \<and> list_all is_domain_char domain_part \<and>
                length tld \<ge> 2 \<and> list_all (\<lambda>c. is_lower c \<or> is_upper c) tld))"

definition matches_enum :: "string \<Rightarrow> bool" where
  "matches_enum s =
    (let body = strip_final_newline s
     in body \<noteq> [] \<and> list_all (\<lambda>c. is_lower c \<or> c = CHR ''_'') body)"

definition matches_full :: "(char \<Rightarrow> bool) list \<Rightarrow> string \<Rightarrow> bool" where
  "matches_full pat s = (case matches_prefix pat s of None \<Rightarrow> False | Some rest \<Rightarrow> at_end rest)"

definition matches_url :: "string \<Rightarrow> bool" where
  "matches_url s = (take 7 s = ''http://'' \<or> take 8 s = ''https://'')"

definition string_schema :: "string option \<Rightarrow> nat \<Rightarrow> (pyval \<times> pyval) list" where
  "string_schema fmt n =
    (PStr ''_type'', PStr ''string'') #
    (case fmt of None \<Rightarrow> [] | Some f \<Rightarrow> [(PStr ''_format'', PStr f)]) @
    [(PStr ''_length'', PInt (int n))]"

definition classify_string :: "string \<Rightarrow> pyval" where
  "classify_string v =
    (let n = length v in
     if matches_full uuid_pattern v then PDict (string_schema (Some ''uuid'') n)
     else if matches_prefix iso8601_pattern v \<noteq> None then PDict (string_schema (Some ''iso8601'') n)
     else if matches_full date_pattern v then PDict (string_schema (Some ''date'') n)
     else if v = ''true'' \<or> v = ''false'' then PDict (string_schema (Some ''boolean_string'') n)
     else if matches_url v then PDict (string_schema (Some ''url'') n)
     else if matches_email v then PDict (string_schema (Some ''email'') n)
     else if n \<le> 30 \<and> matches_enum v then
       PDict (string_schema (Some ''enum_like'') n @ [(PStr ''_example_pattern'', PStr v)])
     else PDict (string_schema None n))"

subsection \<open>Merging string schemas\<close>

fun str_less_eq :: "string \<Rightarrow> string \<Rightarrow> bool" where
  "str_less_eq [] t = True"
| "str_less_eq (c # s) [] = False"
| "str_less_eq (c # s) (d # t) =
    ((of_char c :: nat) < of_char d \<or> (c = d \<and> str_less_eq s t))"

fun insert_sorted :: "string \<Rightarrow> string list \<Rightarrow> string list" where
  "insert_sorted x [] = [x]"
| "insert_sorted x (y # ys) = (if str_less_eq x y then x # y # ys else y # insert_sorted x ys)"

definition sorted_strings :: "string list \<Rightarrow> string list" where
  "sorted_strings xs = foldr insert_sorted xs []"

definition length_of :: "pyval \<Rightarrow> int" where
  "length_of s = (case sget s ''_length'' of PInt n \<Rightarrow> n | _ \<Rightarrow> 0)"

fun py_truthy :: "pyval \<Rightarrow> bool" where
  "py_truthy PNone = False"
| "py_truthy (PInt i) = (i \<noteq> 0)"
| "py_truthy (PStr s) = (s \<noteq> [])"
| "py_truthy (PPercent k n) = True"
| "py_truthy (PTuple xs) = (xs \<noteq> [])"
| "py_truthy (PList xs) = (xs \<noteq> [])"
| "py_truthy (PDict kvs) = (kvs \<noteq> [])"

definition enum_values_of :: "pyval list \<Rightarrow> string list" where
  "enum_values_of schemas =
    concat (map (\<lambda>s. if sget s ''_format'' = PStr ''enum_like''
                      then (case sget s ''_example_pattern'' of
                              PStr p \<Rightarrow> (if p \<noteq> [] then [p] else [])
                            | _ \<Rightarrow> [])
                      else []) schemas)"

definition merge_string_schemas :: "pyval list \<Rightarrow> pyval" where
  "merge_string_schemas schemas =
    (if schemas = [] then PDict [(PStr ''_type'', PStr ''string'')]
     else
       (let formats = counter (map (\<lambda>s. sget s ''_format'') schemas);
            lengths = map length_of schemas;
            result = [(PStr ''_type'', PStr ''string''),
                      (PStr ''_length_min'', PInt (Min (set lengths))),
                      (PStr ''_length_max'', PInt (Max (set lengths)))];
            result1 =
              (if length formats = 1 then
                 (let fmt = fst (hd formats)
                  in if py_truthy fmt then result @ [(PStr ''_format'', fmt)] else result)
               else result @ [(PStr ''_formats'',
                               PDict (map (\<lambda>kn. (fst kn, PInt (int (snd kn)))) formats))]);
            enum_values = enum_values_of schemas;
            unique_values = remdups enum_values
        in if enum_values \<noteq> [] \<and> length unique_values \<le> 10
           then PDict (result1 @ [(PStr ''_enum_values'',
                                  PList (map PStr (sorted_strings unique_values)))])
           else PDict result1))"

subsection \<open>Merging object schemas\<close>

definition schema_type :: "pyval \<Rightarrow> pyval" where
  "schema_type s = sget s ''_type''"

text \<open>\<^verbatim>\<open>schema.get("_keys", {}).items()\<close>.\<close>

definition keys_of :: "pyval \<Rightarrow> (pyval \<times> pyval) list" where
  "keys_of s = (case s of
       PDict d \<Rightarrow> (case map_of d (PStr ''_keys'') of Some (PDict ks) \<Rightarrow> ks | _ \<Rightarrow> [])
     | _ \<Rightarrow> [])"

text \<open>
  The first loop of \<open>merge_object_schemas\<close>: \<^verbatim>\<open>all_keys[key].append(key_schema)\<close>, a new
  key going to the end. \<^verbatim>\<open>key_counts[key]\<close> is the length of \<^verbatim>\<open>all_keys[key]\<close>.
\<close>

fun add_key_schema ::
  "pyval \<Rightarrow> pyval \<Rightarrow> (pyval \<times> pyval list) list \<Rightarrow> (pyval \<times> pyval list) list" where
  "add_key_schema k v [] = [(k, [v])]"
| "add_key_schema k v ((k', vs) # rest) =
    (if k' = k then (k', vs @ [v]) # rest else (k', vs) # add_key_schema k v rest)"

definition add_schema_keys ::
  "(pyval \<times> pyval list) list \<Rightarrow> pyval \<Rightarrow> (pyval \<times> pyval list) list" where
  "add_schema_keys all_keys schema =
    foldl (\<lambda>acc kv. add_key_schema (fst kv) (snd kv) acc) all_keys (keys_of schema)"

definition collect_keys :: "pyval list \<Rightarrow> (pyval \<times> pyval list) list" where
  "collect_keys schemas = foldl add_schema_keys [] schemas"

definition schemas_size :: "pyval list \<Rightarrow> nat" where
  "schemas_size schemas = sum_list (map (\<lambda>s. Suc (size s)) schemas)"

definition keys_size :: "(pyval \<times> pyval list) list \<Rightarrow> nat" where
  "keys_size all_keys = sum_list (map (\<lambda>entry. schemas_size (snd entry)) all_keys)"

text \<open>
  The second loop. A key's schemas are merged when there are several of one type; a key
  that some sample lacks gets \<^verbatim>\<open>_presence\<close>. The recursion is on the schemas one key
  has in the samples, which are parts of the samples' schemas.
\<close>

function merge_object_schemas :: "pyval list \<Rightarrow> pyval" where
  "merge_object_schemas schemas =
    (if schemas = [] then PDict [(PStr ''_type'', PStr ''object''), (PStr ''_keys'', PDict [])]
     else
       PDict [(PStr ''_type'', PStr ''object''),
              (PStr ''_keys'',
               PDict (map (\<lambda>entry.
                 (let key_schemas = snd entry;
                      types = map schema_type key_schemas;
                      merged =
                        (if length key_schemas = 1 then hd key_schemas
                         else if length (remdups types) = 1 then
                           (if hd types = PStr ''string'' then merge_string_schemas key_schemas
                            else if hd types = PStr ''object'' then merge_object_schemas key_schemas
                            else hd key_schemas)
                         else PDict [(PStr ''_type'', PStr ''mixed''),
                                     (PStr ''_types'', counter_dict types)])
                  in (fst entry,
                      if length key_schemas < length schemas
                      then sset merged ''_presence''
                             (PPercent (length key_schemas) (length schemas))
                      else merged)))
                 (collect_keys schemas)))])"
  by pat_completeness auto
termination
proof (relation "measure schemas_size")
  show "wf (measure schemas_size)" by simp
next
  fix schemas :: "pyval list" and entry key_schemas types
  assume ne: "schemas \<noteq> []" and mem: "entry \<in> set (collect_keys schemas)"
    and ks: "key_schemas = snd entry"
  have add: "keys_size (add_key_schema k v acc) = keys_size acc + Suc (size v)" for k v acc
    by (induction k v acc rule: add_key_schema.induct)
       (simp_all add: keys_size_def schemas_size_def)
  have fold_add:
    "keys_size (foldl (\<lambda>acc kv. add_key_schema (fst kv) (snd kv) acc) acc kvs) =
       keys_size acc + sum_list (map (\<lambda>kv. Suc (size (snd kv))) kvs)" for acc kvs
    by (induction kvs arbitrary: acc) (simp_all add: add)
  have entries:
    "sum_list (map (\<lambda>kv. Suc (size (snd kv))) d) \<le> size_list (size_prod size size) d"
    for d :: "(pyval \<times> pyval) list"
    by (induction d) auto
  have member: "size v < size (PDict d)" if "(k, v) \<in> set d" for k v d
    using that by (induction d) auto
  have one: "sum_list (map (\<lambda>kv. Suc (size (snd kv))) (keys_of s)) < Suc (size s)" for s
  proof (cases "keys_of s = []")
    case True
    then show ?thesis by simp
  next
    case False
    then obtain d d' where s: "s = PDict d"
      and m: "map_of d (PStr ''_keys'') = Some (PDict d')" and k: "keys_of s = d'"
      by (auto simp: keys_of_def split: pyval.splits option.splits)
    from m have "(PStr ''_keys'', PDict d') \<in> set d" by (rule map_of_SomeD)
    then have "size (PDict d') < size (PDict d)" by (rule member)
    moreover have "sum_list (map (\<lambda>kv. Suc (size (snd kv))) d') < size (PDict d')"
      using entries [of d'] by simp
    ultimately show ?thesis using s k by simp
  qed
  have collect:
    "keys_size (foldl add_schema_keys acc ss) + length ss \<le> keys_size acc + schemas_size ss"
    for acc ss
  proof (induction ss arbitrary: acc)
    case Nil
    then show ?case by (simp add: schemas_size_def)
  next
    case (Cons s ss)
    have "keys_size (add_schema_keys acc s) < keys_size acc + Suc (size s)"
      using one [of s] by (simp add: add_schema_keys_def fold_add)
    with Cons [of "add_schema_keys acc s"] show ?case
      by (simp add: schemas_size_def)
  qed
  have part: "schemas_size (snd e) \<le> keys_size acc" if "e \<in> set acc" for e acc
    using that by (induction acc) (auto simp: keys_size_def)
  have "schemas_size key_schemas \<le> keys_size (collect_keys schemas)"
    using part [OF mem] ks by simp
  moreover have "keys_size (collect_keys schemas) + length schemas \<le> schemas_size schemas"
    using collect [of "[]" schemas] by (simp add: collect_keys_def keys_size_def)
  ultimately show "(key_schemas, schemas) \<in> measure schemas_size"
    using ne by (cases schemas) simp_all
qed

declare merge_object_schemas.simps [simp del]

subsection \<open>\<open>infer_schema\<close>\<close>

text \<open>\<^verbatim>\<open>obj[:n]\<close>; a negative \<open>n\<close> counts from the end.\<close>

definition py_slice_to :: "int \<Rightarrow> 'a list \<Rightarrow> 'a list" where
  "py_slice_to n xs = (if 0 \<le> n then take (nat n) xs else take (length xs - nat (- n)) xs)"

fun sequence :: "(error + 'a) list \<Rightarrow> error + 'a list" where
  "sequence [] = Inr []"
| "sequence (Inl e # rest) = Inl e"
| "sequence (Inr x # rest) = (case sequence rest of Inl e \<Rightarrow> Inl e | Inr xs \<Rightarrow> Inr (x # xs))"

text \<open>
  The array branch once the samples have their schemas. In the mixed branch
  \<^verbatim>\<open>item_schemas[0]\<close> raises when no sample was taken (\<open>max_array_samples\<close> zero, or
  negative and beyond the length).
\<close>

definition array_schema :: "nat \<Rightarrow> pyval list \<Rightarrow> error + pyval" where
  "array_schema len item_schemas =
    (let schema = [(PStr ''_type'', PStr ''array''), (PStr ''_length'', PInt (int len))];
         item_types = map schema_type item_schemas
     in if length (remdups item_types) = 1 then
          Inr (PDict (schema @
            [(PStr ''_items'',
              if hd item_types = PStr ''object'' then merge_object_schemas item_schemas
              else if hd item_types = PStr ''string'' then merge_string_schemas item_schemas
              else hd item_schemas)]))
        else
          (case item_schemas of
             [] \<Rightarrow> Inl IndexError
           | first_item # _ \<Rightarrow>
               Inr (PDict (schema @ [(PStr ''_item_types'', counter_dict item_types),
                                     (PStr ''_items'', first_item)]))))"

text \<open>
  \<open>infer_schema max_array_samples obj\<close>. The \<^verbatim>\<open>path\<close> argument of the source is passed
  down and never read, and is left out. The last line of the source, for a value of no
  JSON type, has no counterpart.
\<close>

function infer_schema :: "int \<Rightarrow> json \<Rightarrow> error + pyval" where
  "infer_schema max_array_samples JNull = Inr (PDict [(PStr ''_type'', PStr ''null'')])"
| "infer_schema max_array_samples (JBool b) = Inr (PDict [(PStr ''_type'', PStr ''boolean'')])"
| "infer_schema max_array_samples (JInt i) =
    Inr (PDict [(PStr ''_type'', PStr ''integer''),
                (PStr ''_example_range'', PTuple [PInt i, PInt i])])"
| "infer_schema max_array_samples (JFloat w) = Inr (PDict [(PStr ''_type'', PStr ''number'')])"
| "infer_schema max_array_samples (JStr s) = Inr (classify_string s)"
| "infer_schema max_array_samples (JArr xs) =
    (if xs = [] then
       Inr (PDict [(PStr ''_type'', PStr ''array''), (PStr ''_length'', PInt 0),
                   (PStr ''_items'', PNone)])
     else
       (case sequence (map (infer_schema max_array_samples) (py_slice_to max_array_samples xs)) of
          Inl e \<Rightarrow> Inl e
        | Inr item_schemas \<Rightarrow> array_schema (length xs) item_schemas))"
| "infer_schema max_array_samples (JObj kvs) =
    (case sequence (map (\<lambda>kv. infer_schema max_array_samples (snd kv)) kvs) of
       Inl e \<Rightarrow> Inl e
     | Inr key_schemas \<Rightarrow>
         Inr (PDict [(PStr ''_type'', PStr ''object''),
                     (PStr ''_keys'', PDict (zip (map (\<lambda>kv. PStr (fst kv)) kvs) key_schemas))]))"
  by pat_completeness auto
termination
proof (relation "measure (\<lambda>p. size (snd p))")
  show "wf (measure (\<lambda>p. size (snd p)))" by simp
next
  fix max_array_samples :: int and xs :: "json list" and x
  assume "xs \<noteq> []" and "x \<in> set (py_slice_to max_array_samples xs)"
  then have "x \<in> set xs"
    by (auto simp: py_slice_to_def dest: in_set_takeD split: if_splits)
  then have "size x < Suc (size_list size xs)"
    by (induction xs) auto
  then show "((max_array_samples, x), (max_array_samples, JArr xs)) \<in> measure (\<lambda>p. size (snd p))"
    by simp
next
  fix max_array_samples :: int and kvs :: "(string \<times> json) list" and kv
  assume "kv \<in> set kvs"
  then have "size (snd kv) < Suc (size_list (size_prod (\<lambda>_. 0) size) kvs)"
    by (induction kvs) auto
  then show "((max_array_samples, snd kv), (max_array_samples, JObj kvs)) \<in> measure (\<lambda>p. size (snd p))"
    by simp
qed

section \<open>Auxiliary lemmas\<close>

lemma convert_message_valid:
  "valid_message msg \<Longrightarrow> \<exists>l. convert_message_to_logline msg sid = Inr l"
  by (auto simp: valid_message_def convert_message_to_logline_def Let_def
           split: json.splits sum.splits)

lemma convert_messages_valid:
  "list_all valid_message msgs \<Longrightarrow> \<exists>ls. convert_messages msgs sid = Inr ls"
proof (induction msgs)
  case Nil
  then show ?case by simp
next
  case (Cons a msgs)
  then obtain l ls where "convert_message_to_logline a sid = Inr l"
    "convert_messages msgs sid = Inr ls"
    using convert_message_valid by fastforce
  then show ?case by simp
qed

lemma convert_messages_length:
  "convert_messages msgs sid = Inr ls \<Longrightarrow> length ls = length msgs"
  by (induction msgs arbitrary: ls) (auto split: sum.splits)

lemma convert_conversation_valid:
  "valid_conversation c \<Longrightarrow> \<exists>ls. convert_conversation_to_loglines c = Inr ls"
  by (auto simp: valid_conversation_def convert_conversation_to_loglines_def Let_def
           split: json.splits sum.splits dest: convert_messages_valid)

lemma convert_conversation_length:
  "convert_conversation_to_loglines c = Inr ls \<Longrightarrow> length ls = chat_messages_length c"
  by (auto simp: chat_messages_length_def convert_conversation_to_loglines_def Let_def
           split: json.splits sum.splits dest: convert_messages_length)

lemma convert_conversation_JObj:
  "convert_conversation_to_loglines c = Inr ls \<Longrightarrow> \<exists>d. c = JObj d"
  by (auto simp: convert_conversation_to_loglines_def split: json.splits)

lemma parse_conversations_valid:
  "list_all valid_conversation cs \<Longrightarrow> \<exists>ls. parse_conversations cs ids it = Inr ls"
proof (induction cs)
  case Nil
  then show ?case by simp
next
  case (Cons c cs)
  then obtain d where d: "c = JObj d"
    by (auto simp: valid_conversation_def split: json.splits)
  from Cons obtain ls where ls: "convert_conversation_to_loglines c = Inr ls"
    using convert_conversation_valid by fastforce
  from Cons obtain others where "parse_conversations cs ids it = Inr others"
    by auto
  with d ls show ?case
    by (simp add: Let_def)
qed

lemma parse_conversations_length:
  "parse_conversations cs ids it = Inr ls \<Longrightarrow>
   length ls = sum_list (map chat_messages_length (filter (included ids) cs))"
proof (induction cs arbitrary: ls)
  case Nil
  then show ?case by simp
next
  case (Cons c cs)
  from Cons.prems obtain d where d: "c = JObj d"
    by (auto split: json.splits)
  show ?case
  proof (cases "included ids c")
    case False
    with d have "parse_conversations (c # cs) ids it = parse_conversations cs ids it"
      by (simp add: included_def Let_def split: option.splits)
    with Cons.prems Cons.IH False show ?thesis
      by simp
  next
    case True
    with d Cons.prems obtain l1 others where
      l1: "convert_conversation_to_loglines c = Inr l1" and
      ot: "parse_conversations cs ids it = Inr others" and
      ls: "ls = (if it then l1 else map drop_thinking l1) @ others"
      by (auto simp: included_def Let_def split: option.splits if_splits sum.splits)
    from ls have "length ls = length l1 + length others" by simp
    with True l1 ot Cons.IH show ?thesis
      by (simp add: convert_conversation_length)
  qed
qed




lemma parse_conversations_not_dict:
  "\<forall>d. c \<noteq> JObj d \<Longrightarrow> parse_conversations (c # cs) ids it = Inl AttributeError"
  by (cases c) simp_all

lemma parse_conversations_skip:
  "\<not> included ids (JObj d) \<Longrightarrow>
   parse_conversations (JObj d # cs) ids it = parse_conversations cs ids it"
  by (simp add: included_def Let_def split: option.splits)

lemma parse_conversations_take:
  "included ids (JObj d) \<Longrightarrow>
   parse_conversations (JObj d # cs) ids it =
     (case convert_conversation_to_loglines (JObj d) of
        Inl e \<Rightarrow> Inl e
      | Inr ls \<Rightarrow>
          (case parse_conversations cs ids it of
             Inl e \<Rightarrow> Inl e
           | Inr others \<Rightarrow> Inr ((if it then ls else map drop_thinking ls) @ others)))"
  by (simp add: included_def Let_def split: option.splits)

declare parse_conversations.simps(2) [simp del]

lemma convert_message_role:
  "convert_message_to_logline msg sid = Inr l \<Longrightarrow> role (message l) = type l"
  by (auto simp: convert_message_to_logline_def Let_def split: json.splits sum.splits)

lemma convert_messages_role:
  "convert_messages msgs sid = Inr ls \<Longrightarrow> \<forall>l\<in>set ls. role (message l) = type l"
  by (induction msgs arbitrary: ls) (auto split: sum.splits dest: convert_message_role)

lemma convert_conversation_role:
  "convert_conversation_to_loglines c = Inr ls \<Longrightarrow> \<forall>l\<in>set ls. role (message l) = type l"
  by (auto simp: convert_conversation_to_loglines_def Let_def
           split: json.splits sum.splits dest: convert_messages_role)

lemma drop_thinking_fields [simp]:
  "type (drop_thinking l) = type l"
  "timestamp (drop_thinking l) = timestamp l"
  "sessionId (drop_thinking l) = sessionId l"
  "uuid (drop_thinking l) = uuid l"
  "role (message (drop_thinking l)) = role (message l)"
  "content (message (drop_thinking l)) =
     filter (\<lambda>block. dict_get block ''type'' JNull \<noteq> JStr ''thinking'') (content (message l))"
  by (simp_all add: drop_thinking_def)

lemma parse_conversations_role:
  "parse_conversations cs ids it = Inr ls \<Longrightarrow> \<forall>l\<in>set ls. role (message l) = type l"
proof (induction cs arbitrary: ls)
  case Nil
  then show ?case by simp
next
  case (Cons c cs)
  from Cons.prems obtain d where d: "c = JObj d"
    using parse_conversations_not_dict [of c cs ids it] by auto
  show ?case
  proof (cases "included ids (JObj d)")
    case False
    with d Cons show ?thesis by (simp add: parse_conversations_skip)
  next
    case True
    with d Cons.prems obtain l1 others where
      l1: "convert_conversation_to_loglines c = Inr l1" and
      ot: "parse_conversations cs ids it = Inr others" and
      ls: "ls = (if it then l1 else map drop_thinking l1) @ others"
      by (auto simp: parse_conversations_take split: sum.splits)
    from l1 have "\<forall>l\<in>set l1. role (message l) = type l"
      by (rule convert_conversation_role)
    moreover from ot have "\<forall>l\<in>set others. role (message l) = type l"
      by (rule Cons.IH)
    ultimately show ?thesis using ls by auto
  qed
qed

lemma parse_conversations_thinking:
  "parse_conversations cs ids False =
     map_sum id (map drop_thinking) (parse_conversations cs ids True)"
proof (induction cs)
  case Nil
  then show ?case by simp
next
  case (Cons c cs)
  show ?case
  proof (cases "\<exists>d. c = JObj d")
    case False
    then show ?thesis by (simp add: parse_conversations_not_dict)
  next
    case True
    then obtain d where d: "c = JObj d" by blast
    show ?thesis
    proof (cases "included ids (JObj d)")
      case False
      with d Cons show ?thesis by (simp add: parse_conversations_skip)
    next
      case True
      with d Cons show ?thesis
        by (simp add: parse_conversations_take split: sum.splits)
    qed
  qed
qed

lemma parse_export_thinking:
  "parse_claude_ai_export fs p ids False =
     map_sum id (\<lambda>r. r\<lparr>loglines := map drop_thinking (loglines r)\<rparr>)
       (parse_claude_ai_export fs p ids True)"
  by (simp add: parse_claude_ai_export_def parse_conversations_thinking
           split: sum.splits)

lemma convert_message_returns_valid:
  "convert_message_to_logline msg sid = Inr l \<Longrightarrow> valid_message msg"
  by (auto simp: valid_message_def convert_message_to_logline_def Let_def
           split: json.splits sum.splits)

lemma convert_messages_returns_valid:
  "convert_messages msgs sid = Inr ls \<Longrightarrow> list_all valid_message msgs"
  by (induction msgs arbitrary: ls)
     (auto split: sum.splits dest: convert_message_returns_valid)

lemma convert_conversation_returns_valid:
  "convert_conversation_to_loglines c = Inr ls \<Longrightarrow> valid_conversation c"
  by (auto simp: valid_conversation_def convert_conversation_to_loglines_def Let_def
           split: json.splits sum.splits dest: convert_messages_returns_valid)

lemma convert_messages_each:
  "convert_messages msgs sid = Inr ls \<Longrightarrow>
   map Inr ls = map (\<lambda>msg. convert_message_to_logline msg sid) msgs"
  by (induction msgs arbitrary: ls) (auto split: sum.splits)

lemma convert_conversation_each:
  "convert_conversation_to_loglines c = Inr ls \<Longrightarrow>
   map Inr ls =
     map (\<lambda>msg. convert_message_to_logline msg (conversation_uuid c)) (chat_messages_of c)"
  by (auto simp: convert_conversation_to_loglines_def conversation_uuid_def
        chat_messages_of_def Let_def split: json.splits sum.splits
        dest: convert_messages_each)

lemma convert_message_identity:
  "convert_message_to_logline msg sid = Inr l \<Longrightarrow>
   logline_identity l = (sid, message_field msg ''uuid'', message_field msg ''created_at'')"
  by (auto simp: convert_message_to_logline_def logline_identity_def message_field_def Let_def
           split: json.splits sum.splits)

lemma drop_thinking_identity [simp]: "logline_identity (drop_thinking l) = logline_identity l"
  by (simp add: logline_identity_def drop_thinking_def)

lemma expected_identity:
  assumes "map Inr ls = map (expected_logline it) pairs"
  shows "map logline_identity ls =
     map (\<lambda>sm. (fst sm, message_field (snd sm) ''uuid'', message_field (snd sm) ''created_at''))
         pairs"
  using assms
proof (induction pairs arbitrary: ls)
  case Nil
  then show ?case by simp
next
  case (Cons sm pairs)
  then obtain l ls' where ls: "ls = l # ls'" and
    l: "expected_logline it sm = Inr l" and rest: "map Inr ls' = map (expected_logline it) pairs"
    by (cases ls) auto
  from l obtain l0 where l0: "convert_message_to_logline (snd sm) (fst sm) = Inr l0"
    and ll: "l = (if it then id else drop_thinking) l0"
    by (cases "convert_message_to_logline (snd sm) (fst sm)")
       (auto simp: expected_logline_def)
  from convert_message_identity [OF l0] ll
  have "logline_identity l =
      (fst sm, message_field (snd sm) ''uuid'', message_field (snd sm) ''created_at'')"
    by (cases it) simp_all
  with Cons.IH [OF rest] ls show ?case by simp
qed

lemma message_pairs_Cons:
  "message_pairs ids (c # cs) =
     (if included ids c
      then map (\<lambda>msg. (conversation_uuid c, msg)) (chat_messages_of c) @ message_pairs ids cs
      else message_pairs ids cs)"
  by (simp add: message_pairs_def)

lemma parse_conversations_each:
  "parse_conversations cs ids it = Inr ls \<Longrightarrow>
   map Inr ls = map (expected_logline it) (message_pairs ids cs)"
proof (induction cs arbitrary: ls)
  case Nil
  then show ?case by (simp add: message_pairs_def)
next
  case (Cons c cs)
  from Cons.prems obtain d where d: "c = JObj d"
    using parse_conversations_not_dict [of c cs ids it] by auto
  show ?case
  proof (cases "included ids (JObj d)")
    case False
    with d Cons show ?thesis
      by (simp add: parse_conversations_skip message_pairs_Cons)
  next
    case True
    with d Cons.prems obtain l1 others where
      l1: "convert_conversation_to_loglines c = Inr l1" and
      ot: "parse_conversations cs ids it = Inr others" and
      ls: "ls = (if it then l1 else map drop_thinking l1) @ others"
      by (auto simp: parse_conversations_take split: sum.splits)
    have "map Inr (if it then l1 else map drop_thinking l1) =
        map (map_sum id (if it then id else drop_thinking)) (map Inr l1)"
      by (cases it) simp_all
    also have "\<dots> = map (expected_logline it)
        (map (\<lambda>msg. (conversation_uuid c, msg)) (chat_messages_of c))"
      by (simp add: convert_conversation_each [OF l1] expected_logline_def comp_def)
    finally have "map Inr (if it then l1 else map drop_thinking l1) =
        map (expected_logline it)
          (map (\<lambda>msg. (conversation_uuid c, msg)) (chat_messages_of c))" .
    with Cons.IH [OF ot] ls d True show ?thesis
      by (simp add: message_pairs_Cons)
  qed
qed

lemma parse_conversations_returns_valid:
  "parse_conversations cs None it = Inr ls \<Longrightarrow> list_all valid_conversation cs"
proof (induction cs arbitrary: ls)
  case Nil
  then show ?case by simp
next
  case (Cons c cs)
  from Cons.prems obtain d where d: "c = JObj d"
    using parse_conversations_not_dict [of c cs None it] by auto
  have inc: "included None (JObj d)" by (simp add: included_def)
  with d Cons.prems obtain l1 others where
    l1: "convert_conversation_to_loglines c = Inr l1" and
    ot: "parse_conversations cs None it = Inr others"
    by (auto simp: parse_conversations_take split: sum.splits)
  from convert_conversation_returns_valid [OF l1] Cons.IH [OF ot] show ?case by simp
qed

lemma load_returns:
  "load_export_files fs p = Inr data \<Longrightarrow>
   fs (path_join p ''conversations.json'') = Some (Parsed (conversations data)) \<and>
   well_formed_json fs p ''projects.json'' \<and> well_formed_json fs p ''users.json'' \<and>
   well_formed_json fs p ''memories.json''"
  by (auto simp: load_export_files_def load_optional_def json_load_def well_formed_json_def
        split: option.splits export_file.splits sum.splits)

lemma load_optional_ok:
  "well_formed_json fs p n \<Longrightarrow> load_optional fs p n = Inr (optional_default fs p n)"
  by (auto simp: well_formed_json_def load_optional_def optional_default_def json_load_def
           split: option.splits export_file.splits)

lemma convert_blocks_chars: "convert_blocks (map (\<lambda>c. JStr [c]) s) = []"
  by (induction s) auto

lemma export_paths:
  "path_str (Path ''/export'') = ''/export''"
  "path_str (Path ''/export/'') = ''/export''"
  "path_join ''/export'' ''conversations.json'' = ''/export/conversations.json''"
  "path_join ''/export'' ''projects.json'' = ''/export/projects.json''"
  "path_join ''/export'' ''users.json'' = ''/export/users.json''"
  "path_join ''/export'' ''memories.json'' = ''/export/memories.json''"
  "path_join ''/export/'' ''conversations.json'' = ''/export/conversations.json''"
  by code_simp+

lemmas example_defs =
  example_text_block_def example_thinking_block_def example_human_def
  example_assistant_def example_conversation_def example_fs_def

lemma example_human_logline:
  "convert_message_to_logline (JObj example_human) (JStr ''c1'') = Inr (example_loglines True ! 0)"
  by (simp add: example_defs example_loglines_def convert_message_to_logline_def
        convert_content_block_def dict_get_def Let_def)

lemma example_assistant_logline:
  "convert_message_to_logline (JObj example_assistant) (JStr ''c1'') =
     Inr (example_loglines True ! 1)"
  by (simp add: example_defs example_loglines_def convert_message_to_logline_def
        convert_content_block_def dict_get_def Let_def)

lemma example_conversation_loglines:
  "convert_conversation_to_loglines example_conversation = Inr (example_loglines True)"
proof -
  have "example_loglines True = [example_loglines True ! 0, example_loglines True ! 1]"
    by (simp add: example_loglines_def)
  moreover have "convert_conversation_to_loglines example_conversation =
      Inr [example_loglines True ! 0, example_loglines True ! 1]"
    unfolding example_conversation_def convert_conversation_to_loglines_def
    by (simp add: dict_get_def Let_def example_human_logline example_assistant_logline)
  ultimately show ?thesis by simp
qed

lemma example_load:
  "load_export_files example_fs ''/export'' =
     Inr \<lparr> conversations = JArr [example_conversation], projects = JArr [],
           users = JArr [], memories = JArr [] \<rparr>"
  by (simp add: load_export_files_def load_optional_def json_load_def export_paths
        example_fs_def)

lemma example_dict: "example_conversation = JObj d \<Longrightarrow> dict_get d ''uuid'' (JStr '''') = JStr ''c1''"
  by (auto simp: example_conversation_def dict_get_def)

lemma example_parse_True:
  "parse_claude_ai_export example_fs ''/export'' None True = Inr (example_result True)"
proof -
  obtain d where d: "example_conversation = JObj d"
    by (simp add: example_conversation_def)
  have "included None (JObj d)" by (simp add: included_def)
  then have "parse_conversations [example_conversation] None True = Inr (example_loglines True)"
    using example_conversation_loglines unfolding d
    by (simp add: parse_conversations_take)
  then show ?thesis
    by (simp add: parse_claude_ai_export_def example_load example_result_def export_paths)
qed

lemma drop_thinking_example:
  "map drop_thinking (example_loglines True) = example_loglines False"
  by (simp add: example_loglines_def drop_thinking_def dict_get_def)

lemma example_parse_False:
  "parse_claude_ai_export example_fs ''/export'' None False = Inr (example_result False)"
  by (simp add: parse_export_thinking example_parse_True example_result_def
        drop_thinking_example)

lemma example_valid: "valid_export example_fs ''/export''"
  by (simp add: valid_export_def well_formed_json_def export_paths example_defs
        valid_conversation_def valid_message_def dict_get_def)

lemma three_valid: "valid_export three_fs ''/export''"
  by (simp add: valid_export_def well_formed_json_def export_paths example_defs
        three_fs_def three_conversations_def
        valid_conversation_def valid_message_def dict_get_def)

lemma three_pairs:
  "message_pairs (Some [''c3'', ''c1'']) (conversations_of three_fs ''/export'') =
     [(JStr ''c1'', JObj example_human), (JStr ''c1'', JObj example_assistant),
      (JStr ''c3'', JObj example_assistant)]"
  by (simp add: conversations_of_def export_paths three_fs_def three_conversations_def
        message_pairs_def included_def conversation_uuid_def chat_messages_of_def
        example_conversation_def dict_get_def)

lemma three_lengths:
  "sum_list (map chat_messages_length
      (filter (included (Some [''c3'', ''c1''])) (conversations_of three_fs ''/export''))) = 3"
  by (simp add: conversations_of_def export_paths three_fs_def three_conversations_def
        included_def chat_messages_length_def example_conversation_def dict_get_def)



lemma length_md5: "length (md5 msg) = 16"
  by (simp add: md5_def word32_le_bytes_def split: prod.splits)

lemma length_hexdigest: "length (hexdigest bs) = 2 * length bs"
  by (induction bs) (simp_all add: hexdigest_def hex_byte_def)

lemma unat_byte_less: "unat (b :: byte) < 256"
  using unsigned_less [of b, where ?'a = nat] by simp

lemma hex_byte_digits: "set (hex_byte b) \<subseteq> set hexdigits"
proof -
  have "unat b div 16 < 16" "unat b mod 16 < 16"
    using unat_byte_less [of b] by simp_all
  then have "unat b div 16 < length hexdigits" "unat b mod 16 < length hexdigits"
    by (simp_all add: hexdigits_def)
  then show ?thesis
    unfolding hex_byte_def by (simp del: nth_mem add: nth_mem)
qed

lemma hexdigest_digits: "set (hexdigest bs) \<subseteq> set hexdigits"
  using hex_byte_digits by (induction bs) (auto simp: hexdigest_def)

lemma distinct_hexdigits: "distinct hexdigits"
  by (simp add: hexdigits_def)

lemma hex_byte_inj: "hex_byte b = hex_byte b' \<Longrightarrow> b = b'"
proof -
  assume eq: "hex_byte b = hex_byte b'"
  have l: "unat b div 16 < length hexdigits" "unat b mod 16 < length hexdigits"
    "unat b' div 16 < length hexdigits" "unat b' mod 16 < length hexdigits"
    using unat_byte_less [of b] unat_byte_less [of b'] by (simp_all add: hexdigits_def)
  from eq have "hexdigits ! (unat b div 16) = hexdigits ! (unat b' div 16)"
    "hexdigits ! (unat b mod 16) = hexdigits ! (unat b' mod 16)"
    by (simp_all add: hex_byte_def)
  with l have "unat b div 16 = unat b' div 16" "unat b mod 16 = unat b' mod 16"
    using distinct_hexdigits by (simp_all add: nth_eq_iff_index_eq)
  then have "unat b = unat b'"
    by (metis div_mult_mod_eq)
  then show "b = b'" by (rule word_unat_eq_iff [THEN iffD2])
qed

lemma hexdigest_inj:
  "length bs = length bs' \<Longrightarrow> hexdigest bs = hexdigest bs' \<Longrightarrow> bs = bs'"
proof (induction bs bs' rule: list_induct2)
  case Nil
  then show ?case by simp
next
  case (Cons x xs y ys)
  from Cons.prems have "hex_byte x @ hexdigest xs = hex_byte y @ hexdigest ys"
    by (simp add: hexdigest_def)
  moreover have "length (hex_byte x) = length (hex_byte y)"
    by (simp add: hex_byte_def)
  ultimately have "hex_byte x = hex_byte y" "hexdigest xs = hexdigest ys"
    by simp_all
  with Cons.IH show ?case by (simp add: hex_byte_inj)
qed

lemma key_eq_digest_eq:
  "generate_dimension_key sentinel a = generate_dimension_key sentinel b \<longleftrightarrow>
   md5 (encode (key_string sentinel a)) = md5 (encode (key_string sentinel b))"
  unfolding generate_dimension_key_def
  using hexdigest_inj [of "md5 (encode (key_string sentinel a))"
      "md5 (encode (key_string sentinel b))"]
  by (auto simp: length_md5)

lemma unat_of_char: "unat (of_char c :: byte) = of_char c"
proof -
  have "(of_char c :: nat) < 256" by (rule nat_of_char_less_256)
  moreover have "(of_char c :: byte) = of_nat (of_char c)" by (simp add: of_nat_of_char)
  ultimately show ?thesis by (simp add: unat_of_nat)
qed

lemma of_char_byte_inj: "(of_char c :: byte) = of_char d \<Longrightarrow> c = d"
proof -
  assume "(of_char c :: byte) = of_char d"
  then have "unat (of_char c :: byte) = unat (of_char d :: byte)" by simp
  then have "(of_char c :: nat) = of_char d" by (simp only: unat_of_char)
  then show "c = d" by (simp only: of_char_eq_iff)
qed

lemma encode_inj: "encode s = encode t \<Longrightarrow> s = t"
  unfolding encode_def
  by (rule map_injective [of of_char]) (auto simp: inj_on_def dest: of_char_byte_inj)

lemma join_Cons:
  "join sep (x # xs) = (if xs = [] then x else x @ sep @ join sep xs)"
  by (cases xs) simp_all

lemma takeWhile_join:
  assumes "CHR ''|'' \<notin> set x"
  shows "takeWhile (\<lambda>c. c \<noteq> CHR ''|'') (join ''|'' (x # xs)) = x"
proof -
  have all: "\<forall>c\<in>set x. c \<noteq> CHR ''|''" using assms by auto
  then have 1: "takeWhile (\<lambda>c. c \<noteq> CHR ''|'') x = x"
    by (simp only: takeWhile_eq_all_conv)
  have 2: "takeWhile (\<lambda>c. c \<noteq> CHR ''|'') (x @ CHR ''|'' # r) = x" for r
    using all by (simp add: takeWhile_append2)
  show ?thesis
    using 1 2 by (simp add: join_Cons)
qed

lemma dropWhile_join:
  assumes "CHR ''|'' \<notin> set x"
  shows "dropWhile (\<lambda>c. c \<noteq> CHR ''|'') (join ''|'' (x # xs)) =
     (if xs = [] then [] else CHR ''|'' # join ''|'' xs)"
proof -
  have all: "\<forall>c\<in>set x. c \<noteq> CHR ''|''" using assms by auto
  then have 1: "dropWhile (\<lambda>c. c \<noteq> CHR ''|'') x = []"
    by (simp only: dropWhile_eq_Nil_conv)
  have 2: "dropWhile (\<lambda>c. c \<noteq> CHR ''|'') (x @ CHR ''|'' # r) = CHR ''|'' # r" for r
    using all by (simp add: dropWhile_append2)
  show ?thesis
    using 1 2 by (simp add: join_Cons)
qed

lemma join_inj:
  "xs \<noteq> [] \<Longrightarrow> ys \<noteq> [] \<Longrightarrow> \<forall>x\<in>set xs. CHR ''|'' \<notin> set x \<Longrightarrow>
   \<forall>y\<in>set ys. CHR ''|'' \<notin> set y \<Longrightarrow> join ''|'' xs = join ''|'' ys \<Longrightarrow> xs = ys"
proof (induction xs arbitrary: ys)
  case Nil
  then show ?case by simp
next
  case (Cons x xs)
  then obtain y ys' where ys: "ys = y # ys'" by (cases ys) auto
  have cx: "CHR ''|'' \<notin> set x" and cxs: "\<forall>z\<in>set xs. CHR ''|'' \<notin> set z"
    using Cons.prems by simp_all
  have cy: "CHR ''|'' \<notin> set y" and cys: "\<forall>z\<in>set ys'. CHR ''|'' \<notin> set z"
    using Cons.prems ys by simp_all
  have eq: "join ''|'' (x # xs) = join ''|'' (y # ys')" using Cons.prems ys by simp
  have h: "x = y"
    using takeWhile_join [OF cx, of xs] takeWhile_join [OF cy, of ys'] eq by simp
  have d: "(if xs = [] then [] else CHR ''|'' # join ''|'' xs) =
     (if ys' = [] then [] else CHR ''|'' # join ''|'' ys')"
    using dropWhile_join [OF cx, of xs] dropWhile_join [OF cy, of ys'] eq by simp
  show ?case
  proof (cases "xs = []")
    case True
    with d have "ys' = []" by (simp split: if_splits)
    with True h ys show ?thesis by simp
  next
    case False
    with d have ne: "ys' \<noteq> []" and j: "join ''|'' xs = join ''|'' ys'"
      by (simp_all split: if_splits)
    have "xs = ys'"
      by (rule Cons.IH [OF False ne cxs cys j])
    with h ys show ?thesis by simp
  qed
qed

lemma key_string_inj:
  assumes "plain_keys sentinel a" "plain_keys sentinel b"
    and "key_string sentinel a = key_string sentinel b"
  shows "a = b"
proof -
  let ?f = "\<lambda>k. case k of None \<Rightarrow> sentinel | Some s \<Rightarrow> s"
  have clean: "\<forall>x\<in>set (map ?f c). CHR ''|'' \<notin> set x" if "plain_keys sentinel c" for c
    using that by (auto simp: plain_keys_def list_all_iff split: option.splits)
  have "map ?f a = map ?f b"
  proof (rule join_inj)
    show "map ?f a \<noteq> []" using assms(1) by (simp add: plain_keys_def)
    show "map ?f b \<noteq> []" using assms(2) by (simp add: plain_keys_def)
    show "\<forall>x\<in>set (map ?f a). CHR ''|'' \<notin> set x" by (rule clean [OF assms(1)])
    show "\<forall>y\<in>set (map ?f b). CHR ''|'' \<notin> set y" by (rule clean [OF assms(2)])
    show "join ''|'' (map ?f a) = join ''|'' (map ?f b)"
      using assms(3) by (simp add: key_string_def)
  qed
  moreover have "inj_on ?f (set a \<union> set b)"
    using assms(1,2)
    by (auto simp: inj_on_def plain_keys_def list_all_iff split: option.splits)
  ultimately show ?thesis
    by (simp add: inj_on_map_eq_map)
qed

lemma dimension_key_test_vectors:
  "generate_dimension_key sentinel [Some ''project'', Some ''/home/user''] =
     ''c40bc64de4addf478225348a36c4adff''"
  "generate_dimension_key sentinel [Some ''Write''] = ''1129c0e4d43f2d121652a7302712cff6''"
proof -
  have 1: "key_string sentinel [Some ''project'', Some ''/home/user''] = ''project|/home/user''"
    and 2: "key_string sentinel [Some ''Write''] = ''Write''"
    by (simp_all add: key_string_def)
  have "hexdigest (md5 (encode ''project|/home/user'')) = ''c40bc64de4addf478225348a36c4adff''"
    by code_simp
  then show "generate_dimension_key sentinel [Some ''project'', Some ''/home/user''] =
     ''c40bc64de4addf478225348a36c4adff''"
    by (simp only: generate_dimension_key_def 1)
  have "hexdigest (md5 (encode ''Write'')) = ''1129c0e4d43f2d121652a7302712cff6''"
    by code_simp
  then show "generate_dimension_key sentinel [Some ''Write''] = ''1129c0e4d43f2d121652a7302712cff6''"
    by (simp only: generate_dimension_key_def 2)
qed

lemma delimiter_collision:
  "generate_dimension_key sentinel [Some ''a|b''] =
   generate_dimension_key sentinel [Some ''a'', Some ''b'']"
  by (simp add: generate_dimension_key_def key_string_def)

lemma fold_process_counters:
  "fold process_logline ls (st, c) = (st', c') \<Longrightarrow>
   seen_messages c' = seen_messages c + length ls \<and>
   seen_user c' = seen_user c + count_type ''user'' ls \<and>
   seen_assistant c' = seen_assistant c + count_type ''assistant'' ls \<and>
   seen_tool_calls c' = seen_tool_calls c + count_tool_calls ls \<and>
   fact_session_summary st' = fact_session_summary st \<and>
   length (fact_messages st') = length (fact_messages st) + length ls \<and>
   length (fact_tool_calls st') = length (fact_tool_calls st) + count_tool_calls ls"
proof (induction ls arbitrary: st c)
  case Nil
  then show ?case by (simp add: count_type_def count_tool_calls_def)
next
  case (Cons l ls)
  obtain st1 c1 where s1: "process_logline l (st, c) = (st1, c1)"
    by (cases "process_logline l (st, c)")
  with Cons.prems have "fold process_logline ls (st1, c1) = (st', c')" by simp
  from Cons.IH [OF this] s1 show ?case
    by (auto simp: process_logline_def Let_def count_type_def count_tool_calls_def)
qed

lemma fold_process_timestamps:
  "fold process_logline ls (st, c) = (st', c') \<Longrightarrow> ls \<noteq> [] \<Longrightarrow>
   first_timestamp c' =
     (case first_timestamp c of None \<Rightarrow> Some (logline_timestamp (hd ls)) | Some t \<Rightarrow> Some t) \<and>
   last_timestamp c' = Some (logline_timestamp (last ls))"
proof (induction ls arbitrary: st c)
  case Nil
  then show ?case by simp
next
  case (Cons l ls)
  obtain st1 c1 where s1: "process_logline l (st, c) = (st1, c1)"
    by (cases "process_logline l (st, c)")
  then have c1: "first_timestamp c1 =
      (case first_timestamp c of None \<Rightarrow> Some (logline_timestamp l) | Some t \<Rightarrow> Some t)"
    "last_timestamp c1 = Some (logline_timestamp l)"
    by (auto simp: process_logline_def Let_def)
  from s1 Cons.prems have f: "fold process_logline ls (st1, c1) = (st', c')" by simp
  show ?case
  proof (cases "ls = []")
    case True
    with f c1 show ?thesis by (auto split: option.splits)
  next
    case False
    from Cons.IH [OF f False] c1 False show ?thesis
      by (auto split: option.splits)
  qed
qed

lemma fixture_counts:
  "length fixture_session = 6"
  "count_type ''user'' fixture_session = 3"
  "count_type ''assistant'' fixture_session = 3"
  "count_tool_calls fixture_session = 2"
  by (simp_all add: fixture_session_def fixture_logline_def count_type_def count_tool_calls_def
        logline_type_def tool_use_blocks_def logline_blocks_def dict_get_def)

lemma fixture_times:
  "parse_iso8601 ''2025-01-15T10:00:00.000Z'' = Some 1736935200000000"
  "parse_iso8601 ''2025-01-15T10:00:25.000Z'' = Some 1736935225000000"
  "parse_iso8601 ''yesterday'' = None"
  by code_simp+

lemma fixture_duration: "expected_duration parse_iso8601 fixture_session = 25"
proof -
  have "logline_timestamp (hd fixture_session) = ''2025-01-15T10:00:00.000Z''"
    "logline_timestamp (last fixture_session) = ''2025-01-15T10:00:25.000Z''"
    by (simp_all add: fixture_session_def fixture_logline_def logline_timestamp_def dict_get_def)
  moreover have "fixture_session \<noteq> []" by (simp add: fixture_session_def)
  ultimately show ?thesis
    by (simp add: expected_duration_def fixture_times whole_seconds_def)
qed

lemma unparsed_first:
  "unparsed_session \<noteq> []"
  "parse_iso8601 (logline_timestamp (hd unparsed_session)) = None"
  by (simp_all add: unparsed_session_def fixture_logline_def logline_timestamp_def dict_get_def
        fixture_times)

lemma classify_abc:
  "classify_string ''abc'' =
     PDict [(PStr ''_type'', PStr ''string''), (PStr ''_format'', PStr ''enum_like''),
            (PStr ''_length'', PInt 3), (PStr ''_example_pattern'', PStr ''abc'')]"
  by code_simp

lemma classify_xyz:
  "classify_string ''xyz'' =
     PDict [(PStr ''_type'', PStr ''string''), (PStr ''_format'', PStr ''enum_like''),
            (PStr ''_length'', PInt 3), (PStr ''_example_pattern'', PStr ''xyz'')]"
  by code_simp

lemma infer_enum_array:
  "infer_schema 5 (JArr [JStr ''abc'', JStr ''abd'']) =
     Inr (PDict [(PStr ''_type'', PStr ''array''), (PStr ''_length'', PInt 2),
                 (PStr ''_items'',
                  PDict [(PStr ''_type'', PStr ''string''),
                         (PStr ''_length_min'', PInt 3), (PStr ''_length_max'', PInt 3),
                         (PStr ''_format'', PStr ''enum_like''),
                         (PStr ''_enum_values'', PList [PStr ''abc'', PStr ''abd''])])])"
  by code_simp

lemma infer_enum_array_other:
  "infer_schema 5 (JArr [JStr ''xyz'', JStr ''xyw'']) =
     Inr (PDict [(PStr ''_type'', PStr ''array''), (PStr ''_length'', PInt 2),
                 (PStr ''_items'',
                  PDict [(PStr ''_type'', PStr ''string''),
                         (PStr ''_length_min'', PInt 3), (PStr ''_length_max'', PInt 3),
                         (PStr ''_format'', PStr ''enum_like''),
                         (PStr ''_enum_values'', PList [PStr ''xyw'', PStr ''xyz''])])])"
  by code_simp

section \<open>The claims\<close>

text \<open>
  Claim C1. For an export directory whose \<^verbatim>\<open>conversations.json\<close> is a list of
  conversation objects with well-formed message lists (and whose optional files, where
  present, parse), \<open>parse_claude_ai_export\<close> returns; with no allowlist it returns
  for these exports only. Whenever it returns, with either value of
  \<open>include_thinking\<close>, the loglines are, in order, the conversions of the messages of
  the conversations that pass the allowlist, conversation by conversation and message by
  message, so that no conversation or message is dropped, duplicated or moved: the
  number of loglines is the sum of the lengths of \<^verbatim>\<open>chat_messages\<close> over those
  conversations, and each logline carries the \<^verbatim>\<open>uuid\<close> of its conversation and the
  \<^verbatim>\<open>uuid\<close> and \<^verbatim>\<open>created_at\<close> of its message.
\<close>

theorem loglines_count:
  "(valid_export fs p \<longrightarrow> (\<exists>r. parse_claude_ai_export fs p ids it = Inr r)) \<and>
   (parse_claude_ai_export fs p ids it = Inr r \<longrightarrow>
      length (loglines r) =
        sum_list (map chat_messages_length (filter (included ids) (conversations_of fs p))) \<and>
      map Inr (loglines r) =
        map (expected_logline it) (message_pairs ids (conversations_of fs p)) \<and>
      map logline_identity (loglines r) =
        map (\<lambda>sm. (fst sm, message_field (snd sm) ''uuid'',
                   message_field (snd sm) ''created_at''))
            (message_pairs ids (conversations_of fs p))) \<and>
   ((\<exists>r. parse_claude_ai_export fs p None it = Inr r) \<longleftrightarrow> valid_export fs p)"
proof -
  have returns: "\<exists>r. parse_claude_ai_export fs p ids' it = Inr r"
    if v: "valid_export fs p" for ids'
  proof -
    from v obtain cj cs where
      cj: "fs (path_join p ''conversations.json'') = Some (Parsed cj)" and
      cs: "py_iter cj = Inr cs" and va: "list_all valid_conversation cs"
      by (auto simp: valid_export_def split: option.splits export_file.splits sum.splits)
    from v obtain data where
      "load_export_files fs p = Inr data" "conversations data = cj" using cj
      by (auto simp: valid_export_def well_formed_json_def load_export_files_def
            load_optional_def json_load_def split: option.splits export_file.splits)
    moreover obtain ls where "parse_conversations cs ids' it = Inr ls"
      using parse_conversations_valid [OF va] by blast
    ultimately show ?thesis
      using cs by (simp add: parse_claude_ai_export_def)
  qed
  have parts: "\<exists>data cs. load_export_files fs p = Inr data \<and>
      py_iter (conversations data) = Inr cs \<and> conversations_of fs p = cs \<and>
      parse_conversations cs ids' it = Inr (loglines r')"
    if "parse_claude_ai_export fs p ids' it = Inr r'" for ids' r'
  proof -
    from that obtain data cs where
      data: "load_export_files fs p = Inr data" and
      cs: "py_iter (conversations data) = Inr cs" and
      ls: "parse_conversations cs ids' it = Inr (loglines r')"
      by (auto simp: parse_claude_ai_export_def split: sum.splits)
    from load_returns [OF data] cs have "conversations_of fs p = cs"
      by (simp add: conversations_of_def)
    with data cs ls show ?thesis by blast
  qed
  have valid: "valid_export fs p" if "parse_claude_ai_export fs p None it = Inr r'" for r'
  proof -
    from parts [OF that] obtain data cs where
      data: "load_export_files fs p = Inr data" and
      cs: "py_iter (conversations data) = Inr cs" and
      ls: "parse_conversations cs None it = Inr (loglines r')"
      by blast
    from parse_conversations_returns_valid [OF ls] load_returns [OF data] cs
    show ?thesis by (simp add: valid_export_def)
  qed
  have count: "length (loglines r) =
        sum_list (map chat_messages_length (filter (included ids) (conversations_of fs p))) \<and>
      map Inr (loglines r) =
        map (expected_logline it) (message_pairs ids (conversations_of fs p)) \<and>
      map logline_identity (loglines r) =
        map (\<lambda>sm. (fst sm, message_field (snd sm) ''uuid'',
                   message_field (snd sm) ''created_at''))
            (message_pairs ids (conversations_of fs p))"
    if "parse_claude_ai_export fs p ids it = Inr r"
  proof -
    from parts [OF that] obtain cs where
      c: "conversations_of fs p = cs" and
      ls: "parse_conversations cs ids it = Inr (loglines r)"
      by blast
    have each: "map Inr (loglines r) = map (expected_logline it) (message_pairs ids cs)"
      using ls by (rule parse_conversations_each)
    from parse_conversations_length [OF ls] each expected_identity [OF each] c
    show ?thesis by simp
  qed
  from returns [of ids] returns [of None] valid count show ?thesis
    by blast
qed

text \<open>The theorem at an export of three conversations, with an allowlist that names two.\<close>

theorem loglines_count_witness:
  "valid_export three_fs ''/export'' \<and>
   (\<exists>r. parse_claude_ai_export three_fs ''/export'' (Some [''c3'', ''c1'']) False = Inr r \<and>
        length (loglines r) = 3 \<and>
        map logline_identity (loglines r) =
          [(JStr ''c1'', JStr ''m1'', JStr ''2026-01-06T21:03:55.210564Z''),
           (JStr ''c1'', JStr '''', JStr ''''),
           (JStr ''c3'', JStr '''', JStr '''')]) \<and>
   (\<exists>r. parse_claude_ai_export three_fs ''/export'' None False = Inr r)"
proof -
  obtain r where r: "parse_claude_ai_export three_fs ''/export'' (Some [''c3'', ''c1'']) False = Inr r"
    using loglines_count [of three_fs "''/export''" "Some [''c3'', ''c1'']" False] three_valid
    by blast
  have 1: "length (loglines r) = 3"
    using loglines_count [of three_fs "''/export''" "Some [''c3'', ''c1'']" False r] r
    by (simp add: three_lengths)
  have "map logline_identity (loglines r) =
      map (\<lambda>sm. (fst sm, message_field (snd sm) ''uuid'', message_field (snd sm) ''created_at''))
        (message_pairs (Some [''c3'', ''c1'']) (conversations_of three_fs ''/export''))"
    using loglines_count [of three_fs "''/export''" "Some [''c3'', ''c1'']" False r] r
    by blast
  then have 2: "map logline_identity (loglines r) =
          [(JStr ''c1'', JStr ''m1'', JStr ''2026-01-06T21:03:55.210564Z''),
           (JStr ''c1'', JStr '''', JStr ''''),
           (JStr ''c3'', JStr '''', JStr '''')]"
    by (simp add: three_pairs message_field_def example_human_def example_assistant_def
          dict_get_def)
  have 3: "\<exists>r. parse_claude_ai_export three_fs ''/export'' None False = Inr r"
    using loglines_count [of three_fs "''/export''" None False] three_valid by blast
  from r 1 2 have "\<exists>r. parse_claude_ai_export three_fs ''/export'' (Some [''c3'', ''c1'']) False = Inr r \<and>
        length (loglines r) = 3 \<and>
        map logline_identity (loglines r) =
          [(JStr ''c1'', JStr ''m1'', JStr ''2026-01-06T21:03:55.210564Z''),
           (JStr ''c1'', JStr '''', JStr ''''),
           (JStr ''c3'', JStr '''', JStr '''')]"
    by (intro exI [of _ r] conjI)
  with three_valid 3 show ?thesis by (intro conjI)
qed

text \<open>
  Claim C2. Every logline that \<open>convert_message_to_logline\<close> produces has
  \<open>message.role\<close> equal to \<open>type\<close>, and so has every logline in the output of
  \<open>parse_claude_ai_export\<close>, with or without thinking blocks.
\<close>

theorem role_equals_type:
  "(convert_message_to_logline msg sid = Inr l \<longrightarrow> role (message l) = type l) \<and>
   (parse_claude_ai_export fs p ids it = Inr r \<longrightarrow>
      (\<forall>x\<in>set (loglines r). role (message x) = type x))"
proof (intro conjI impI)
  assume "convert_message_to_logline msg sid = Inr l"
  then show "role (message l) = type l" by (rule convert_message_role)
next
  assume "parse_claude_ai_export fs p ids it = Inr r"
  then obtain cs where "parse_conversations cs ids it = Inr (loglines r)"
    by (auto simp: parse_claude_ai_export_def split: sum.splits)
  then show "\<forall>x\<in>set (loglines r). role (message x) = type x"
    by (rule parse_conversations_role)
qed

text \<open>The theorem at a concrete export.\<close>

theorem role_equals_type_witness:
  "convert_message_to_logline (JObj example_human) (JStr ''c1'') = Inr (example_loglines True ! 0) \<and>
   role (message (example_loglines True ! 0)) = type (example_loglines True ! 0) \<and>
   parse_claude_ai_export example_fs ''/export'' None True = Inr (example_result True) \<and>
   list_all (\<lambda>x. role (message x) = type x) (loglines (example_result True))"
  using role_equals_type [of "JObj example_human" "JStr ''c1''" "example_loglines True ! 0"
      example_fs "''/export''" None True "example_result True"]
    example_human_logline example_parse_True
  by (simp add: list_all_iff)

text \<open>
  Claim C3. With \<open>include_thinking = False\<close> the parser returns exactly when it
  returns with \<open>include_thinking = True\<close>; the two outputs have the same loglines in
  the same order, equal in every field except that the content of each is the
  normalized content with the blocks of type \<^verbatim>\<open>"thinking"\<close> filtered out (the other
  blocks kept, in order).
\<close>

theorem exclude_thinking:
  "(parse_claude_ai_export fs p ids True = Inr r \<longrightarrow>
      (\<exists>r'. parse_claude_ai_export fs p ids False = Inr r' \<and>
            length (loglines r') = length (loglines r) \<and>
            (\<forall>i<length (loglines r).
               content (message (loglines r' ! i)) =
                 filter (\<lambda>block. dict_get block ''type'' JNull \<noteq> JStr ''thinking'')
                        (content (message (loglines r ! i))) \<and>
               type (loglines r' ! i) = type (loglines r ! i) \<and>
               role (message (loglines r' ! i)) = role (message (loglines r ! i)) \<and>
               timestamp (loglines r' ! i) = timestamp (loglines r ! i) \<and>
               sessionId (loglines r' ! i) = sessionId (loglines r ! i) \<and>
               uuid (loglines r' ! i) = uuid (loglines r ! i)))) \<and>
   (parse_claude_ai_export fs p ids False = Inr r' \<longrightarrow>
      (\<exists>r. parse_claude_ai_export fs p ids True = Inr r))"
proof (intro conjI impI)
  assume t: "parse_claude_ai_export fs p ids True = Inr r"
  let ?r' = "r\<lparr>loglines := map drop_thinking (loglines r)\<rparr>"
  from t have "parse_claude_ai_export fs p ids False = Inr ?r'"
    by (simp add: parse_export_thinking)
  then show "\<exists>r'. parse_claude_ai_export fs p ids False = Inr r' \<and>
            length (loglines r') = length (loglines r) \<and>
            (\<forall>i<length (loglines r).
               content (message (loglines r' ! i)) =
                 filter (\<lambda>block. dict_get block ''type'' JNull \<noteq> JStr ''thinking'')
                        (content (message (loglines r ! i))) \<and>
               type (loglines r' ! i) = type (loglines r ! i) \<and>
               role (message (loglines r' ! i)) = role (message (loglines r ! i)) \<and>
               timestamp (loglines r' ! i) = timestamp (loglines r ! i) \<and>
               sessionId (loglines r' ! i) = sessionId (loglines r ! i) \<and>
               uuid (loglines r' ! i) = uuid (loglines r ! i))"
    by (intro exI [of _ ?r']) simp
next
  assume "parse_claude_ai_export fs p ids False = Inr r'"
  then show "\<exists>r. parse_claude_ai_export fs p ids True = Inr r"
    by (cases "parse_claude_ai_export fs p ids True") (simp_all add: parse_export_thinking)
qed

text \<open>The theorem at a concrete export.\<close>

theorem exclude_thinking_witness:
  "parse_claude_ai_export example_fs ''/export'' None True = Inr (example_result True) \<and>
   parse_claude_ai_export example_fs ''/export'' None False = Inr (example_result False) \<and>
   length (loglines (example_result False)) = length (loglines (example_result True)) \<and>
   content (message (loglines (example_result True) ! 1)) =
     [[(''type'', JStr ''thinking''), (''thinking'', JStr ''Let me see'')],
      [(''type'', JStr ''text''), (''text'', JStr ''Hello'')]] \<and>
   content (message (loglines (example_result False) ! 1)) =
     [[(''type'', JStr ''text''), (''text'', JStr ''Hello'')]]"
proof -
  from exclude_thinking [of example_fs "''/export''" None "example_result True" "example_result False"]
    example_parse_True
  have "\<exists>r'. parse_claude_ai_export example_fs ''/export'' None False = Inr r' \<and>
            length (loglines r') = length (loglines (example_result True))"
    by blast
  then have "length (loglines (example_result False)) = length (loglines (example_result True))"
    by (simp add: example_parse_False)
  then show ?thesis
    using example_parse_True example_parse_False
    by (simp add: example_result_def example_loglines_def)
qed

text \<open>
  Claim C4, as amended. For every sequence of components (strings or \<^verbatim>\<open>None\<close>, so
  also for the single component \<^verbatim>\<open>None\<close>) the key is 32 characters, each a lowercase hex
  digit. Two keys are equal exactly when the MD5 digests of the two joined strings are.
  For two different sequences of plain keys (non-empty, no \<^verbatim>\<open>|\<close> in a component or
  in the sentinel, no component equal to the sentinel) the joined strings differ, so their
  keys can only agree through a collision of MD5. That the key is the same at every call
  is what the model being a function says.
\<close>

theorem dimension_key_properties:
  "length (generate_dimension_key sentinel ks) = 32 \<and>
   set (generate_dimension_key sentinel ks) \<subseteq> set ''0123456789abcdef'' \<and>
   (generate_dimension_key sentinel a = generate_dimension_key sentinel b \<longleftrightarrow>
      md5 (encode (key_string sentinel a)) = md5 (encode (key_string sentinel b))) \<and>
   (plain_keys sentinel a \<and> plain_keys sentinel b \<and> a \<noteq> b \<longrightarrow>
      encode (key_string sentinel a) \<noteq> encode (key_string sentinel b))"
proof (intro conjI impI)
  show "length (generate_dimension_key sentinel ks) = 32"
    by (simp add: generate_dimension_key_def length_hexdigest length_md5)
  show "set (generate_dimension_key sentinel ks) \<subseteq> set ''0123456789abcdef''"
    using hexdigest_digits [of "md5 (encode (key_string sentinel ks))"]
    by (simp add: generate_dimension_key_def hexdigits_def)
  show "generate_dimension_key sentinel a = generate_dimension_key sentinel b \<longleftrightarrow>
      md5 (encode (key_string sentinel a)) = md5 (encode (key_string sentinel b))"
    by (rule key_eq_digest_eq)
next
  assume a: "plain_keys sentinel a \<and> plain_keys sentinel b \<and> a \<noteq> b"
  then have "key_string sentinel a \<noteq> key_string sentinel b"
    using key_string_inj by blast
  then show "encode (key_string sentinel a) \<noteq> encode (key_string sentinel b)"
    using encode_inj by blast
qed

text \<open>
  Claim C4 as stated fails: the two different sequences \<^verbatim>\<open>("a|b",)\<close> and
  \<^verbatim>\<open>("a", "b")\<close> are joined to the same string, so their keys are equal whatever the
  digest is (and whatever the sentinel is, see \<open>delimiter_collision\<close>).
\<close>

theorem dimension_key_counterexample:
  "[Some ''a|b''] \<noteq> [Some ''a'', Some ''b''] \<and>
   generate_dimension_key ''NULL'' [Some ''a|b''] =
     generate_dimension_key ''NULL'' [Some ''a'', Some ''b''] \<and>
   encode (key_string ''NULL'' [Some ''a|b'']) =
     encode (key_string ''NULL'' [Some ''a'', Some ''b''])"
  by (simp add: generate_dimension_key_def key_string_def)

text \<open>The theorem at a concrete export.\<close>

theorem dimension_key_properties_witness:
  "length (generate_dimension_key ''NULL'' [None]) = 32 \<and>
   plain_keys ''NULL'' [Some ''Write''] \<and> plain_keys ''NULL'' [Some ''Read''] \<and>
   encode (key_string ''NULL'' [Some ''Write'']) \<noteq> encode (key_string ''NULL'' [Some ''Read'']) \<and>
   plain_keys ''NULL'' [Some ''s1'', None, Some ''Bash''] \<and>
   plain_keys ''NULL'' [Some ''s1'', Some ''Bash''] \<and>
   encode (key_string ''NULL'' [Some ''s1'', None, Some ''Bash'']) \<noteq>
     encode (key_string ''NULL'' [Some ''s1'', Some ''Bash''])"
proof -
  have p: "plain_keys ''NULL'' [Some ''Write''] \<and> plain_keys ''NULL'' [Some ''Read''] \<and>
      [Some ''Write''] \<noteq> [Some ''Read'']"
    by (simp add: plain_keys_def)
  have q: "plain_keys ''NULL'' [Some ''s1'', None, Some ''Bash''] \<and>
      plain_keys ''NULL'' [Some ''s1'', Some ''Bash''] \<and>
      [Some ''s1'', None, Some ''Bash''] \<noteq> [Some ''s1'', Some ''Bash'']"
    by (simp add: plain_keys_def)
  from p dimension_key_properties [of "''NULL''" "[None]" "[Some ''Write'']" "[Some ''Read'']"]
  have 1: "length (generate_dimension_key ''NULL'' [None]) = 32 \<and>
      encode (key_string ''NULL'' [Some ''Write'']) \<noteq> encode (key_string ''NULL'' [Some ''Read''])"
    by blast
  from q dimension_key_properties [of "''NULL''" "[None]" "[Some ''s1'', None, Some ''Bash'']"
      "[Some ''s1'', Some ''Bash'']"]
  have 2: "encode (key_string ''NULL'' [Some ''s1'', None, Some ''Bash'']) \<noteq>
     encode (key_string ''NULL'' [Some ''s1'', Some ''Bash''])"
    by blast
  from p q 1 2 show ?thesis by blast
qed

text \<open>
  Claim C5. A run over the loglines of one session adds exactly one row to
  \<open>fact_session_summary\<close>, whatever the timestamps are: its message counts are the
  numbers of loglines, of loglines of type \<^verbatim>\<open>"user"\<close> and of type \<^verbatim>\<open>"assistant"\<close>, its
  tool-call count is the number of \<^verbatim>\<open>tool_use\<close> blocks (as many rows as the run adds to
  \<open>fact_tool_calls\<close>), and its duration is the whole seconds from the first to the last
  timestamp, zero for a session of one logline and zero when the first or the last
  timestamp cannot be parsed.
\<close>

theorem session_summary:
  "fact_session_summary (run_star_schema_etl parse_timestamp st session) =
     fact_session_summary st @
       [\<lparr> total_messages = length session,
          user_messages = count_type ''user'' session,
          assistant_messages = count_type ''assistant'' session,
          total_tool_calls = count_tool_calls session,
          session_duration_seconds = expected_duration parse_timestamp session \<rparr>] \<and>
   length (fact_messages (run_star_schema_etl parse_timestamp st session)) =
     length (fact_messages st) + length session \<and>
   length (fact_tool_calls (run_star_schema_etl parse_timestamp st session)) =
     length (fact_tool_calls st) + count_tool_calls session \<and>
   (length session = 1 \<longrightarrow> expected_duration parse_timestamp session = 0) \<and>
   (session \<noteq> [] \<and>
    (parse_timestamp (logline_timestamp (hd session)) = None \<or>
     parse_timestamp (logline_timestamp (last session)) = None) \<longrightarrow>
      expected_duration parse_timestamp session = 0)"
proof -
  obtain st' c' where f: "fold process_logline session (st, initial_counters) = (st', c')"
    by (cases "fold process_logline session (st, initial_counters)")
  note cnt = fold_process_counters [OF f]
  have dur: "session_duration parse_timestamp (first_timestamp c') (last_timestamp c') =
      expected_duration parse_timestamp session"
  proof (cases "session = []")
    case True
    with f show ?thesis
      by (auto simp: initial_counters_def session_duration_def expected_duration_def)
  next
    case False
    from fold_process_timestamps [OF f False] False show ?thesis
      by (simp add: initial_counters_def session_duration_def expected_duration_def)
  qed
  have one: "expected_duration parse_timestamp session = 0" if "length session = 1"
  proof -
    from that obtain l where "session = [l]"
      by (cases session) auto
    then show ?thesis
      by (simp add: expected_duration_def whole_seconds_def split: option.splits)
  qed
  have unparsed: "expected_duration parse_timestamp session = 0"
    if "session \<noteq> [] \<and>
        (parse_timestamp (logline_timestamp (hd session)) = None \<or>
         parse_timestamp (logline_timestamp (last session)) = None)"
    using that by (auto simp: expected_duration_def split: option.splits)
  have run: "run_star_schema_etl parse_timestamp st session =
      st'\<lparr> fact_session_summary := fact_session_summary st' @
               [\<lparr> total_messages = seen_messages c',
                  user_messages = seen_user c',
                  assistant_messages = seen_assistant c',
                  total_tool_calls = seen_tool_calls c',
                  session_duration_seconds =
                    session_duration parse_timestamp (first_timestamp c') (last_timestamp c') \<rparr>] \<rparr>"
    by (simp add: run_star_schema_etl_def f)
  have 1: "fact_session_summary (run_star_schema_etl parse_timestamp st session) =
     fact_session_summary st @
       [\<lparr> total_messages = length session,
          user_messages = count_type ''user'' session,
          assistant_messages = count_type ''assistant'' session,
          total_tool_calls = count_tool_calls session,
          session_duration_seconds = expected_duration parse_timestamp session \<rparr>]"
    using cnt dur by (simp add: run initial_counters_def)
  have 2: "length (fact_messages (run_star_schema_etl parse_timestamp st session)) =
     length (fact_messages st) + length session"
    using cnt by (simp add: run)
  have 3: "length (fact_tool_calls (run_star_schema_etl parse_timestamp st session)) =
     length (fact_tool_calls st) + count_tool_calls session"
    using cnt by (simp add: run)
  from 1 2 3 one unparsed show ?thesis
    by blast
qed

text \<open>The theorem at a concrete export.\<close>

theorem session_summary_witness:
  "fact_session_summary (run_star_schema_etl parse_iso8601 empty_store fixture_session) =
     [\<lparr> total_messages = 6, user_messages = 3, assistant_messages = 3,
        total_tool_calls = 2, session_duration_seconds = 25 \<rparr>] \<and>
   length [hd fixture_session] = 1 \<and>
   expected_duration parse_iso8601 [hd fixture_session] = 0 \<and>
   parse_iso8601 (logline_timestamp (hd unparsed_session)) = None \<and>
   map session_duration_seconds
     (fact_session_summary (run_star_schema_etl parse_iso8601 empty_store unparsed_session)) = [0]"
proof -
  have 1: "fact_session_summary (run_star_schema_etl parse_iso8601 empty_store fixture_session) =
     [\<lparr> total_messages = 6, user_messages = 3, assistant_messages = 3,
        total_tool_calls = 2, session_duration_seconds = 25 \<rparr>]"
    using session_summary [of parse_iso8601 empty_store fixture_session]
    by (simp add: fixture_counts fixture_duration empty_store_def)
  have 2: "expected_duration parse_iso8601 [hd fixture_session] = 0"
    using session_summary [of parse_iso8601 empty_store "[hd fixture_session]"] by simp
  have "expected_duration parse_iso8601 unparsed_session = 0"
    using session_summary [of parse_iso8601 empty_store unparsed_session] unparsed_first
    by blast
  then have 3: "map session_duration_seconds
     (fact_session_summary (run_star_schema_etl parse_iso8601 empty_store unparsed_session)) = [0]"
    using session_summary [of parse_iso8601 empty_store unparsed_session]
    by (simp add: empty_store_def)
  from 1 2 3 unparsed_first show ?thesis by simp
qed

text \<open>
  Claim C6. \<open>load_export_files\<close> raises \<^verbatim>\<open>FileNotFoundError\<close> exactly when
  \<^verbatim>\<open>conversations.json\<close> is absent, and then returns no bundle. With
  \<^verbatim>\<open>conversations.json\<close> present and parsed, and no optional file malformed, it returns
  a bundle in which each of \<open>projects\<close>, \<open>users\<close>, \<open>memories\<close> is the empty list
  when its file is absent.
\<close>

theorem loader_required_optional:
  "((\<exists>m. load_export_files fs p = Inl (FileNotFoundError m)) \<longleftrightarrow>
      fs (path_join p ''conversations.json'') = None) \<and>
   (fs (path_join p ''conversations.json'') = None \<longrightarrow> isl (load_export_files fs p)) \<and>
   (fs (path_join p ''conversations.json'') = Some (Parsed cj) \<and>
    well_formed_json fs p ''projects.json'' \<and>
    well_formed_json fs p ''users.json'' \<and>
    well_formed_json fs p ''memories.json'' \<longrightarrow>
      (\<exists>b. load_export_files fs p = Inr b \<and> conversations b = cj \<and>
           (fs (path_join p ''projects.json'') = None \<longrightarrow> projects b = JArr []) \<and>
           (fs (path_join p ''users.json'') = None \<longrightarrow> users b = JArr []) \<and>
           (fs (path_join p ''memories.json'') = None \<longrightarrow> memories b = JArr [])))"
proof (intro conjI impI)
  show "(\<exists>m. load_export_files fs p = Inl (FileNotFoundError m)) \<longleftrightarrow>
      fs (path_join p ''conversations.json'') = None"
    by (auto simp: load_export_files_def load_optional_def json_load_def
          split: option.splits export_file.splits sum.splits)
next
  assume "fs (path_join p ''conversations.json'') = None"
  then show "isl (load_export_files fs p)"
    by (simp add: load_export_files_def)
next
  assume a: "fs (path_join p ''conversations.json'') = Some (Parsed cj) \<and>
    well_formed_json fs p ''projects.json'' \<and>
    well_formed_json fs p ''users.json'' \<and>
    well_formed_json fs p ''memories.json''"
  then have "load_export_files fs p =
      Inr \<lparr> conversations = cj, projects = optional_default fs p ''projects.json'',
            users = optional_default fs p ''users.json'',
            memories = optional_default fs p ''memories.json'' \<rparr>"
    by (simp add: load_export_files_def load_optional_ok json_load_def)
  then show "\<exists>b. load_export_files fs p = Inr b \<and> conversations b = cj \<and>
           (fs (path_join p ''projects.json'') = None \<longrightarrow> projects b = JArr []) \<and>
           (fs (path_join p ''users.json'') = None \<longrightarrow> users b = JArr []) \<and>
           (fs (path_join p ''memories.json'') = None \<longrightarrow> memories b = JArr [])"
    by (simp add: optional_default_def)
qed

text \<open>The theorem at a concrete export.\<close>

theorem loader_required_optional_witness:
  "(\<exists>m. load_export_files Map.empty ''/export'' = Inl (FileNotFoundError m)) \<and>
   (\<exists>b. load_export_files example_fs ''/export'' = Inr b \<and>
        conversations b = JArr [example_conversation] \<and>
        projects b = JArr [] \<and> users b = JArr [] \<and> memories b = JArr [])"
proof -
  have 1: "\<exists>m. load_export_files Map.empty ''/export'' = Inl (FileNotFoundError m)"
    using loader_required_optional [of Map.empty "''/export''"] by simp
  have "example_fs (path_join ''/export'' ''conversations.json'') =
          Some (Parsed (JArr [example_conversation])) \<and>
        well_formed_json example_fs ''/export'' ''projects.json'' \<and>
        well_formed_json example_fs ''/export'' ''users.json'' \<and>
        well_formed_json example_fs ''/export'' ''memories.json'' \<and>
        example_fs (path_join ''/export'' ''projects.json'') = None \<and>
        example_fs (path_join ''/export'' ''users.json'') = None \<and>
        example_fs (path_join ''/export'' ''memories.json'') = None"
    by (simp add: example_fs_def export_paths well_formed_json_def)
  with loader_required_optional [of example_fs "''/export''" "JArr [example_conversation]"]
  have 2: "\<exists>b. load_export_files example_fs ''/export'' = Inr b \<and>
        conversations b = JArr [example_conversation] \<and>
        projects b = JArr [] \<and> users b = JArr [] \<and> memories b = JArr []"
    by auto
  from 1 2 show ?thesis by blast
qed




text \<open>
  Claim C8. For a message object whose content can be iterated,
  \<open>convert_message_to_logline\<close> returns a logline whose \<open>type\<close> is \<^verbatim>\<open>"user"\<close> when
  the sender is \<^verbatim>\<open>"human"\<close> and the sender itself otherwise, with \<open>message.role\<close>
  the same; an absent \<^verbatim>\<open>uuid\<close> or \<^verbatim>\<open>created_at\<close> gives the empty string and no
  error.
\<close>

theorem sender_mapping:
  assumes "py_iter (dict_get m ''content'' (JArr [])) = Inr blocks"
  shows "\<exists>l. convert_message_to_logline (JObj m) sid = Inr l \<and>
     type l = (if dict_get m ''sender'' (JStr '''') = JStr ''human'' then JStr ''user''
               else dict_get m ''sender'' (JStr '''')) \<and>
     role (message l) = type l \<and>
     (map_of m ''uuid'' = None \<longrightarrow> uuid l = JStr '''') \<and>
     (map_of m ''created_at'' = None \<longrightarrow> timestamp l = JStr '''')"
  using assms by (simp add: convert_message_to_logline_def Let_def dict_get_def)

text \<open>The theorem at a concrete export.\<close>

theorem sender_mapping_witness:
  "py_iter (dict_get example_assistant ''content'' (JArr [])) =
     Inr [JObj example_thinking_block, JObj example_text_block] \<and>
   (\<exists>l. convert_message_to_logline (JObj example_assistant) (JStr ''c1'') = Inr l \<and>
        type l = JStr ''assistant'' \<and> role (message l) = JStr ''assistant'' \<and>
        uuid l = JStr '''' \<and> timestamp l = JStr '''') \<and>
   (\<exists>l. convert_message_to_logline (JObj example_human) (JStr ''c1'') = Inr l \<and>
        type l = JStr ''user'' \<and> role (message l) = JStr ''user'')"
proof -
  have a: "py_iter (dict_get example_assistant ''content'' (JArr [])) =
     Inr [JObj example_thinking_block, JObj example_text_block]"
    by (simp add: example_assistant_def dict_get_def)
  have h: "py_iter (dict_get example_human ''content'' (JArr [])) =
     Inr [JObj example_text_block]"
    by (simp add: example_human_def dict_get_def)
  have 1: "\<exists>l. convert_message_to_logline (JObj example_assistant) (JStr ''c1'') = Inr l \<and>
        type l = JStr ''assistant'' \<and> role (message l) = JStr ''assistant'' \<and>
        uuid l = JStr '''' \<and> timestamp l = JStr ''''"
    using sender_mapping [OF a, of "JStr ''c1''"]
    by (auto simp: example_assistant_def dict_get_def)
  have 2: "\<exists>l. convert_message_to_logline (JObj example_human) (JStr ''c1'') = Inr l \<and>
        type l = JStr ''user'' \<and> role (message l) = JStr ''user''"
    using sender_mapping [OF h, of "JStr ''c1''"]
    by (auto simp: example_human_def dict_get_def)
  from a 1 2 show ?thesis by blast
qed

text \<open>
  Claim C9 does not hold of the code. The schema of an integer holds the integer
  (\<^verbatim>\<open>_example_range\<close>), and the schema of a short string of lowercase letters and
  underscores holds the string (\<^verbatim>\<open>_example_pattern\<close>, and \<^verbatim>\<open>_enum_values\<close> after
  merging): two integers, and two such strings of one length, get different schemas.
  The module's documentation says that no value is emitted.
\<close>

theorem inspector_emits_leaf_values:
  "infer_schema n (JInt 5) =
     Inr (PDict [(PStr ''_type'', PStr ''integer''),
                 (PStr ''_example_range'', PTuple [PInt 5, PInt 5])]) \<and>
   infer_schema n (JInt 7) =
     Inr (PDict [(PStr ''_type'', PStr ''integer''),
                 (PStr ''_example_range'', PTuple [PInt 7, PInt 7])]) \<and>
   infer_schema n (JInt 5) \<noteq> infer_schema n (JInt 7) \<and>
   infer_schema n (JStr ''abc'') =
     Inr (PDict [(PStr ''_type'', PStr ''string''), (PStr ''_format'', PStr ''enum_like''),
                 (PStr ''_length'', PInt 3), (PStr ''_example_pattern'', PStr ''abc'')]) \<and>
   infer_schema n (JStr ''xyz'') =
     Inr (PDict [(PStr ''_type'', PStr ''string''), (PStr ''_format'', PStr ''enum_like''),
                 (PStr ''_length'', PInt 3), (PStr ''_example_pattern'', PStr ''xyz'')]) \<and>
   infer_schema n (JStr ''abc'') \<noteq> infer_schema n (JStr ''xyz'') \<and>
   sget (merge_string_schemas [classify_string ''abc'', classify_string ''abd''])
        ''_enum_values'' = PList [PStr ''abc'', PStr ''abd'']"
proof -
  have "sget (merge_string_schemas [classify_string ''abc'', classify_string ''abd''])
        ''_enum_values'' = PList [PStr ''abc'', PStr ''abd'']"
    by code_simp
  then show ?thesis
    by (simp add: classify_abc classify_xyz)
qed

text \<open>
  Claim C10. A message whose \<^verbatim>\<open>content\<close> is a string is converted without error to a
  logline with empty \<open>message.content\<close>: the loop runs over the characters, none of
  which is a dict.
\<close>

theorem string_content_discarded:
  "map_of m ''content'' = Some (JStr s) \<Longrightarrow>
   \<exists>l. convert_message_to_logline (JObj m) sid = Inr l \<and> content (message l) = []"
  by (simp add: convert_message_to_logline_def Let_def dict_get_def convert_blocks_chars)

text \<open>The theorem at a concrete export.\<close>

theorem string_content_discarded_witness:
  "map_of string_content_message ''content'' = Some (JStr ''Hello there'') \<and>
   (\<exists>l. convert_message_to_logline (JObj string_content_message) (JStr ''c1'') = Inr l \<and>
        content (message l) = [])"
proof -
  have c: "map_of string_content_message ''content'' = Some (JStr ''Hello there'')"
    by (simp add: string_content_message_def)
  from c string_content_discarded [OF c, of "JStr ''c1''"] show ?thesis by blast
qed

end
